theory Spec2Isabelle
  imports Main
begin

section \<open>Data model\<close>

text \<open>
  The agent code of \<^verbatim>\<open>backend/app\<close> works on Python dictionaries decoded from
  the provider's JSON. The dictionaries it reads are modelled as datatypes, one
  constructor per value of their \<^verbatim>\<open>"type"\<close> key.

  A JSON value, as \<^verbatim>\<open>json.loads\<close> returns it; \<^verbatim>\<open>{}\<close> is \<open>JObj []\<close>.
\<close>

datatype json =
    JNull
  | JBool bool
  | JNum int
  | JStr string
  | JArr "json list"
  | JObj "(string \<times> json) list"

text \<open>An item of a tool result's content: \<^verbatim>\<open>{"type": "text", "text": s}\<close>.\<close>

datatype content_item = TextItem string

text \<open>
  The dictionary a tool handler returns. The handlers of \<^verbatim>\<open>agent.py\<close> return
  \<^verbatim>\<open>{"content": [...]}\<close> on success, without the key \<^verbatim>\<open>"is_error"\<close>, so both
  keys are optional: \<open>None\<close> is an absent key.
\<close>

record tool_result =
  tr_content :: "content_item list option"
  tr_is_error :: "bool option"

text \<open>
  A content block: \<^verbatim>\<open>{"type": "text", "text": t}\<close>,
  \<^verbatim>\<open>{"type": "tool_use", "id": i, "name": n, "input": v}\<close> or
  \<^verbatim>\<open>{"type": "tool_result", "tool_use_id": i, "content": c, "is_error": b}\<close>.
\<close>

datatype block =
    Text string
  | ToolUse string string json
  | ToolResult string "content_item list" bool

text \<open>
  An entry of \<^verbatim>\<open>conversation_history\<close>: \<^verbatim>\<open>{"role": r, "content": c}\<close>, where the
  content is a string (a user message) or a list of blocks.
\<close>

datatype msg_content = Plain string | Blocks "block list"

record message =
  role :: string
  content :: msg_content

text \<open>
  The response of \<^verbatim>\<open>BedrockClaudeClient.invoke\<close>; a response without the key
  \<^verbatim>\<open>"content"\<close> has \<open>resp_content = []\<close> (the code reads it with
  \<^verbatim>\<open>response.get("content", [])\<close> and tests its truth value).
\<close>

record response =
  stop_reason :: "string option"
  resp_content :: "block list"

text \<open>The chunks of \<^verbatim>\<open>BedrockClaudeClient.invoke_stream\<close>.\<close>

datatype delta = TextDelta string | InputJsonDelta string | OtherDelta

datatype chunk =
    ContentBlockStart block
  | ContentBlockDelta delta
  | ContentBlockStop
  | MessageStop
  | OtherChunk string

text \<open>
  The value a tool handler returns is not checked by the code: it is the
  dictionary above, or any other value (\<^verbatim>\<open>None\<close>, say), which has no method
  \<^verbatim>\<open>get\<close>; \<open>NotDict\<close> carries the name of its type.
\<close>

datatype py_value = Dict tool_result | NotDict string

text \<open>
  What awaiting a handler does: it returns a value, it raises an exception of
  the class \<^verbatim>\<open>Exception\<close>, or it raises one that is a \<^verbatim>\<open>BaseException\<close>
  only (\<^verbatim>\<open>asyncio.CancelledError\<close>, \<^verbatim>\<open>KeyboardInterrupt\<close>, \<^verbatim>\<open>SystemExit\<close>).
  An exception is the string \<^verbatim>\<open>str(e)\<close>.
\<close>

datatype handler_outcome = Returns py_value | RaisesException string | RaisesBase string

text \<open>
  The collaborators. The client is the function from the \<^verbatim>\<open>messages\<close> argument
  to what the call does: the other arguments (system prompt, token limit,
  temperature, tools) are the same at every call of one agent. A stream is the
  chunks it yields and then, possibly, the exception it raises in place of the
  next chunk.
\<close>

type_synonym handler = "json \<Rightarrow> handler_outcome"
type_synonym handlers = "string \<rightharpoonup> handler"
type_synonym invoke = "message list \<Rightarrow> string + response"
type_synonym invoke_stream = "message list \<Rightarrow> chunk list \<times> string option"

text \<open>What a call does: it raises, or it returns.\<close>

datatype 'a result = Raised string | Returned 'a

text \<open>
  The events the streaming functions yield, by their \<^verbatim>\<open>"type"\<close>:
  \<^verbatim>\<open>agent_context\<close>, \<^verbatim>\<open>text\<close>, \<^verbatim>\<open>tool_use\<close> (name, input),
  \<^verbatim>\<open>tool_result\<close> (name, output) and \<^verbatim>\<open>done\<close> (its \<^verbatim>\<open>tool_calls\<close>; its
  \<^verbatim>\<open>decisions_made\<close> is the empty list everywhere). The output of a
  \<^verbatim>\<open>tool_result\<close> event is the handler's result dictionary in
  \<^verbatim>\<open>bedrock_agent.py\<close>, and parsed JSON, a raw string or \<^verbatim>\<open>None\<close> in
  \<^verbatim>\<open>agent.py\<close>.
\<close>

datatype tool_output = ResultDict tool_result | Parsed json | Raw string | NoOutput

datatype event =
    EvAgentContext
  | EvText string
  | EvToolUse string json
  | EvToolResult string tool_output
  | EvDone "(string \<times> json) list"

text \<open>
  The state the loops of \<^verbatim>\<open>BedrockAgent\<close> work on: the object's
  \<^verbatim>\<open>conversation_history\<close>; two traces of the calls made to the collaborators
  (\<open>requests\<close>: the \<^verbatim>\<open>messages\<close> of every client call, \<open>dispatched\<close>: name and
  input of every \<^verbatim>\<open>execute_tool\<close> call); the events yielded so far; and the
  local variables of the two loops. The streaming loop appends its list
  \<^verbatim>\<open>tool_results\<close> itself to the history, so the turn appended and the local
  variable are one list object until the next pass makes a new list:
  \<open>shared_turns\<close> holds the positions in the history of the turns whose content
  is that object.
\<close>

record state =
  conversation_history :: "message list"
  requests :: "message list list"
  dispatched :: "(string \<times> json) list"
  events :: "event list"
  response_text :: string
  tool_calls :: "(string \<times> json) list"
  has_tool_use :: bool
  tool_results :: "block list"
  current_tool_use :: "(string \<times> string \<times> json) option"
  accumulated_content :: "block list"
  shared_turns :: "nat list"

definition new_agent :: state where
  "new_agent = \<lparr>conversation_history = [], requests = [], dispatched = [], events = [],
     response_text = [], tool_calls = [], has_tool_use = False, tool_results = [],
     current_tool_use = None, accumulated_content = [], shared_turns = []\<rparr>"

definition user_turn :: "msg_content \<Rightarrow> message" where
  "user_turn c = \<lparr>role = ''user'', content = c\<rparr>"

definition assistant_turn :: "block list \<Rightarrow> message" where
  "assistant_turn bs = \<lparr>role = ''assistant'', content = Blocks bs\<rparr>"

section \<open>BedrockAgent: tool dispatch\<close>

text \<open>
  \<^verbatim>\<open>execute_tool\<close>: an unknown name gives an error result; the handler's value is
  returned as it is; \<^verbatim>\<open>except Exception\<close> turns an exception of the class
  \<^verbatim>\<open>Exception\<close> into an error result and lets any other pass.
\<close>

definition execute_tool :: "string \<Rightarrow> json \<Rightarrow> handlers \<Rightarrow> py_value result" where
  "execute_tool tool_name tool_input tool_handlers =
     (case tool_handlers tool_name of
        None \<Rightarrow>
          Returned (Dict
            \<lparr>tr_content = Some [TextItem (''Tool '' @ tool_name @ '' not found'')],
             tr_is_error = Some True\<rparr>)
      | Some handler \<Rightarrow>
          (case handler tool_input of
             Returns result \<Rightarrow> Returned result
           | RaisesException e \<Rightarrow>
               Returned (Dict
                 \<lparr>tr_content = Some [TextItem (''Error executing '' @ tool_name @ '': '' @ e)],
                  tr_is_error = Some True\<rparr>)
           | RaisesBase e \<Rightarrow> Raised e))"

text \<open>
  The \<^verbatim>\<open>AttributeError\<close> of \<^verbatim>\<open>result.get\<close> on a value of the type named \<open>t\<close>.
\<close>

definition no_get :: "string \<Rightarrow> string" where
  "no_get t = [CHR 0x27] @ t @ [CHR 0x27] @ '' object has no attribute ''
     @ [CHR 0x27] @ ''get'' @ [CHR 0x27]"

text \<open>
  The tool-result block both loops build from a result:
  \<^verbatim>\<open>result.get("content", [])\<close> and \<^verbatim>\<open>result.get("is_error", False)\<close>.
\<close>

definition dict_block :: "string \<Rightarrow> tool_result \<Rightarrow> block" where
  "dict_block tool_use_id result =
     ToolResult tool_use_id
       (case tr_content result of None \<Rightarrow> [] | Some c \<Rightarrow> c)
       (case tr_is_error result of None \<Rightarrow> False | Some b \<Rightarrow> b)"

fun tool_result_block :: "string \<Rightarrow> py_value \<Rightarrow> block result" where
  "tool_result_block tool_use_id (Dict result) = Returned (dict_block tool_use_id result)"
| "tool_result_block tool_use_id (NotDict t) = Raised (no_get t)"

section \<open>BedrockAgent: the non-streaming loop\<close>

text \<open>
  \<^verbatim>\<open>query\<close>: the client is called first; the user turn, and the assistant turn
  when the response has content, are appended after it has returned.
\<close>

definition query :: "invoke \<Rightarrow> string \<Rightarrow> state \<Rightarrow> response result \<times> state" where
  "query client msg s =
     (let messages = conversation_history s @ [user_turn (Plain msg)];
          s1 = s\<lparr>requests := requests s @ [messages]\<rparr>
      in case client messages of
           Inl e \<Rightarrow> (Raised e, s1)
         | Inr resp \<Rightarrow>
             (let s2 = s1\<lparr>conversation_history :=
                          conversation_history s1 @ [user_turn (Plain msg)]\<rparr>;
                  s3 = (if resp_content resp \<noteq> []
                        then s2\<lparr>conversation_history :=
                                conversation_history s2 @ [assistant_turn (resp_content resp)]\<rparr>
                        else s2)
              in (Returned resp, s3)))"

text \<open>
  The loop over the blocks of one response. It ends with the exception that
  \<^verbatim>\<open>execute_tool\<close> lets pass, or that \<^verbatim>\<open>result.get\<close> raises.
\<close>

fun process_blocks :: "handlers \<Rightarrow> block list \<Rightarrow> state \<Rightarrow> state \<times> unit result" where
  "process_blocks hs [] s = (s, Returned ())"
| "process_blocks hs (Text t # bs) s =
     process_blocks hs bs (s\<lparr>response_text := response_text s @ t\<rparr>)"
| "process_blocks hs (ToolUse tool_use_id tool_name tool_input # bs) s =
     (let s1 = s\<lparr>has_tool_use := True,
                  tool_calls := tool_calls s @ [(tool_name, tool_input)],
                  dispatched := dispatched s @ [(tool_name, tool_input)]\<rparr>
      in case execute_tool tool_name tool_input hs of
           Raised e \<Rightarrow> (s1, Raised e)
         | Returned result \<Rightarrow>
             (case tool_result_block tool_use_id result of
                Raised e \<Rightarrow> (s1, Raised e)
              | Returned b \<Rightarrow>
                  process_blocks hs bs (s1\<lparr>tool_results := tool_results s1 @ [b]\<rparr>)))"
| "process_blocks hs (ToolResult i c e # bs) s = process_blocks hs bs s"

text \<open>
  One pass of the body of \<^verbatim>\<open>for iteration in range(max_iterations)\<close>. The second
  component says how the pass ends: \<open>Raised e\<close> when \<^verbatim>\<open>query\<close> or the loop over
  the blocks raised, \<open>Returned True\<close> at \<^verbatim>\<open>break\<close>, \<open>Returned False\<close> when the
  loop goes on.
\<close>

definition loop_body :: "invoke \<Rightarrow> handlers \<Rightarrow> string \<Rightarrow> state \<Rightarrow> state \<times> bool result" where
  "loop_body client hs msg s =
     (case query client msg s of
        (Raised e, s1) \<Rightarrow> (s1, Raised e)
      | (Returned resp, s1) \<Rightarrow>
          (case process_blocks hs (resp_content resp)
                  (s1\<lparr>has_tool_use := False, tool_results := []\<rparr>) of
             (s2, Raised e) \<Rightarrow> (s2, Raised e)
           | (s2, Returned u) \<Rightarrow>
               (if has_tool_use s2 \<and> tool_results s2 \<noteq> []
                then (s2\<lparr>conversation_history :=
                           conversation_history s2 @ [user_turn (Blocks (tool_results s2))]\<rparr>,
                      Returned False)
                else if stop_reason resp = Some ''end_turn'' then (s2, Returned True)
                else (s2, Returned False))))"

fun loop_iterations ::
  "invoke \<Rightarrow> handlers \<Rightarrow> string \<Rightarrow> nat list \<Rightarrow> state \<Rightarrow> state \<times> unit result" where
  "loop_iterations client hs message [] s = (s, Returned ())"
| "loop_iterations client hs message (iteration # rest) s =
     (case loop_body client hs (if iteration = 0 then message else []) s of
        (s1, Raised e) \<Rightarrow> (s1, Raised e)
      | (s1, Returned True) \<Rightarrow> (s1, Returned ())
      | (s1, Returned False) \<Rightarrow> loop_iterations client hs message rest s1)"

text \<open>
  \<^verbatim>\<open>run_agentic_loop\<close>: \<^verbatim>\<open>range(max_iterations)\<close> is empty for a negative
  \<^verbatim>\<open>max_iterations\<close>. It returns
  \<^verbatim>\<open>{"response": response_text, "tool_calls": tool_calls}\<close>.
\<close>

definition run_agentic_loop ::
  "invoke \<Rightarrow> string \<Rightarrow> handlers \<Rightarrow> int \<Rightarrow> state
     \<Rightarrow> state \<times> (string \<times> (string \<times> json) list) result" where
  "run_agentic_loop client message hs max_iterations s =
     (case loop_iterations client hs message [0..<nat max_iterations]
             (s\<lparr>response_text := [], tool_calls := []\<rparr>) of
        (s1, Raised e) \<Rightarrow> (s1, Raised e)
      | (s1, Returned u) \<Rightarrow> (s1, Returned (response_text s1, tool_calls s1)))"

section \<open>BedrockAgent: the streaming loop\<close>

text \<open>
  \<^verbatim>\<open>query_stream\<close> is a generator: for each chunk of the client it updates its
  \<^verbatim>\<open>accumulated_content\<close> and yields the chunk, or does not. A
  \<^verbatim>\<open>content_block_delta\<close> chunk is yielded only when its delta is a
  \<^verbatim>\<open>text_delta\<close>.
\<close>

fun query_stream_step :: "chunk \<Rightarrow> block list \<Rightarrow> block list \<times> bool" where
  "query_stream_step (ContentBlockDelta (TextDelta t)) acc = (acc @ [Text t], True)"
| "query_stream_step (ContentBlockDelta d) acc = (acc, False)"
| "query_stream_step (ContentBlockStart (ToolUse i n v)) acc = (acc @ [ToolUse i n v], True)"
| "query_stream_step (ContentBlockStart b) acc = (acc, True)"
| "query_stream_step c acc = (acc, True)"

text \<open>
  \<^verbatim>\<open>query_stream\<close> run to its end by a consumer that takes every chunk: the
  user turn is appended before the client is called, the assistant turn after the
  last chunk, when the stream has not raised.
\<close>

fun query_stream_chunks :: "chunk list \<Rightarrow> block list \<Rightarrow> block list \<times> chunk list" where
  "query_stream_chunks [] acc = (acc, [])"
| "query_stream_chunks (c # cs) acc =
     (case query_stream_step c acc of
        (acc1, yielded) \<Rightarrow>
          (case query_stream_chunks cs acc1 of
             (acc2, out) \<Rightarrow> (acc2, if yielded then c # out else out)))"

definition query_stream ::
  "invoke_stream \<Rightarrow> string \<Rightarrow> state \<Rightarrow> (chunk list \<times> unit result) \<times> state" where
  "query_stream client msg s =
     (let messages = conversation_history s @ [user_turn (Plain msg)];
          s1 = s\<lparr>conversation_history := conversation_history s @ [user_turn (Plain msg)],
                 requests := requests s @ [messages]\<rparr>
      in case client messages of
           (cs, failure) \<Rightarrow>
             (case query_stream_chunks cs [] of
                (acc, out) \<Rightarrow>
                  (case failure of
                     Some e \<Rightarrow> ((out, Raised e), s1\<lparr>accumulated_content := acc\<rparr>)
                   | None \<Rightarrow>
                       ((out, Returned ()),
                        (if acc \<noteq> []
                         then s1\<lparr>conversation_history :=
                                  conversation_history s1 @ [assistant_turn acc]\<rparr>
                         else s1)\<lparr>accumulated_content := acc\<rparr>))))"

text \<open>
  \<^verbatim>\<open>tool_results.append(...)\<close> in the streaming loop: the turns of the history
  that hold the list grow with it.
\<close>

definition share :: "block list \<Rightarrow> nat list \<Rightarrow> message list \<Rightarrow> message list" where
  "share results positions history =
     fold (\<lambda>k h. h[k := user_turn (Blocks results)]) positions history"

text \<open>
  What the body of \<^verbatim>\<open>async for chunk in self.query_stream(...)\<close> in
  \<^verbatim>\<open>run_agentic_loop_stream\<close> does with one chunk it is given. The second
  component is \<open>Returned True\<close> at \<^verbatim>\<open>return\<close> and \<open>Raised e\<close> when
  \<^verbatim>\<open>execute_tool\<close> lets an exception pass or \<^verbatim>\<open>result.get\<close> raises. The
  arguments \<open>loads\<close> and \<open>dumps\<close> are \<^verbatim>\<open>json.loads\<close> (\<open>None\<close> when it raises)
  and \<^verbatim>\<open>json.dumps\<close>.
\<close>

fun on_chunk ::
  "(string \<Rightarrow> json option) \<Rightarrow> (json \<Rightarrow> string) \<Rightarrow> handlers \<Rightarrow> chunk \<Rightarrow> state
     \<Rightarrow> state \<times> bool result" where
  "on_chunk loads dumps hs (ContentBlockStart (ToolUse i n v)) s =
     (s\<lparr>current_tool_use := Some (i, n, JObj []),
        has_tool_use := True,
        events := events s @ [EvToolUse n (JObj [])]\<rparr>, Returned False)"
| "on_chunk loads dumps hs (ContentBlockStart b) s = (s, Returned False)"
| "on_chunk loads dumps hs (ContentBlockDelta (TextDelta t)) s =
     (s\<lparr>events := events s @ [EvText t]\<rparr>, Returned False)"
| "on_chunk loads dumps hs (ContentBlockDelta (InputJsonDelta partial_json)) s =
     (case current_tool_use s of
        None \<Rightarrow> (s, Returned False)
      | Some (i, n, v) \<Rightarrow>
          (if partial_json \<noteq> []
           then (case loads (dumps v @ partial_json) of
                   Some v' \<Rightarrow> (s\<lparr>current_tool_use := Some (i, n, v')\<rparr>, Returned False)
                 | None \<Rightarrow> (s, Returned False))
           else (s, Returned False)))"
| "on_chunk loads dumps hs (ContentBlockDelta OtherDelta) s = (s, Returned False)"
| "on_chunk loads dumps hs ContentBlockStop s =
     (case current_tool_use s of
        None \<Rightarrow> (s, Returned False)
      | Some (i, n, v) \<Rightarrow>
          (let s1 = s\<lparr>dispatched := dispatched s @ [(n, v)]\<rparr>
           in case execute_tool n v hs of
                Raised e \<Rightarrow> (s1, Raised e)
              | Returned (NotDict t) \<Rightarrow> (s1, Raised (no_get t))
              | Returned (Dict result) \<Rightarrow>
                  (s1\<lparr>tool_results := tool_results s1 @ [dict_block i result],
                      conversation_history :=
                        share (tool_results s1 @ [dict_block i result]) (shared_turns s1)
                          (conversation_history s1),
                      events := events s1 @ [EvToolResult n (ResultDict result)],
                      current_tool_use := None\<rparr>, Returned False)))"
| "on_chunk loads dumps hs MessageStop s =
     (if has_tool_use s \<and> tool_results s \<noteq> []
      then (s\<lparr>conversation_history :=
                conversation_history s @ [user_turn (Blocks (tool_results s))],
              shared_turns := shared_turns s @ [length (conversation_history s)]\<rparr>,
            Returned False)
      else (s, Returned True))"
| "on_chunk loads dumps hs (OtherChunk k) s = (s, Returned False)"

text \<open>
  The two generators run in turn: \<^verbatim>\<open>query_stream\<close> takes a chunk from the
  client, and when it yields it the loop body runs on it before the next chunk
  is taken. At \<^verbatim>\<open>return\<close> the rest of the stream is not read.
\<close>

fun consume ::
  "(string \<Rightarrow> json option) \<Rightarrow> (json \<Rightarrow> string) \<Rightarrow> handlers \<Rightarrow> chunk list \<Rightarrow> state
     \<Rightarrow> state \<times> bool result" where
  "consume loads dumps hs [] s = (s, Returned False)"
| "consume loads dumps hs (c # cs) s =
     (case query_stream_step c (accumulated_content s) of
        (acc, yielded) \<Rightarrow>
          (if yielded
           then (case on_chunk loads dumps hs c (s\<lparr>accumulated_content := acc\<rparr>) of
                   (s1, Returned False) \<Rightarrow> consume loads dumps hs cs s1
                 | (s1, ended) \<Rightarrow> (s1, ended))
           else consume loads dumps hs cs (s\<lparr>accumulated_content := acc\<rparr>)))"

text \<open>
  One pass of the body of \<^verbatim>\<open>for iteration in range(max_iterations)\<close> of
  \<^verbatim>\<open>run_agentic_loop_stream\<close>: \<open>Raised e\<close> when the loop body or the stream
  raised (nothing in either generator catches it), \<open>Returned True\<close> at
  \<^verbatim>\<open>return\<close>, and \<open>Returned False\<close> when the stream has ended and
  \<^verbatim>\<open>query_stream\<close> has appended the assistant turn.
\<close>

definition stream_body ::
  "(string \<Rightarrow> json option) \<Rightarrow> (json \<Rightarrow> string) \<Rightarrow> invoke_stream \<Rightarrow> handlers \<Rightarrow> string
     \<Rightarrow> state \<Rightarrow> state \<times> bool result" where
  "stream_body loads dumps client hs msg s =
     (let messages = conversation_history s @ [user_turn (Plain msg)];
          s0 = s\<lparr>current_tool_use := None, tool_results := [], has_tool_use := False,
                 conversation_history := conversation_history s @ [user_turn (Plain msg)],
                 requests := requests s @ [messages],
                 accumulated_content := [], shared_turns := []\<rparr>
      in case client messages of
           (cs, failure) \<Rightarrow>
             (case consume loads dumps hs cs s0 of
                (s1, Returned False) \<Rightarrow>
                  (case failure of
                     Some e \<Rightarrow> (s1, Raised e)
                   | None \<Rightarrow>
                       (if accumulated_content s1 \<noteq> []
                        then s1\<lparr>conversation_history :=
                                 conversation_history s1
                                   @ [assistant_turn (accumulated_content s1)]\<rparr>
                        else s1, Returned False))
              | (s1, ended) \<Rightarrow> (s1, ended)))"

fun stream_iterations ::
  "(string \<Rightarrow> json option) \<Rightarrow> (json \<Rightarrow> string) \<Rightarrow> invoke_stream \<Rightarrow> handlers \<Rightarrow> string
     \<Rightarrow> nat list \<Rightarrow> state \<Rightarrow> state \<times> unit result" where
  "stream_iterations loads dumps client hs message [] s = (s, Returned ())"
| "stream_iterations loads dumps client hs message (iteration # rest) s =
     (case stream_body loads dumps client hs (if iteration = 0 then message else []) s of
        (s1, Raised e) \<Rightarrow> (s1, Raised e)
      | (s1, Returned True) \<Rightarrow> (s1, Returned ())
      | (s1, Returned False) \<Rightarrow> stream_iterations loads dumps client hs message rest s1)"

text \<open>
  \<^verbatim>\<open>run_agentic_loop_stream\<close>: the events it yields are those added to
  \<open>events\<close>, in order; \<open>Raised e\<close> is the exception that ends the generator.
\<close>

definition run_agentic_loop_stream ::
  "(string \<Rightarrow> json option) \<Rightarrow> (json \<Rightarrow> string) \<Rightarrow> invoke_stream \<Rightarrow> string \<Rightarrow> handlers
     \<Rightarrow> int \<Rightarrow> state \<Rightarrow> state \<times> unit result" where
  "run_agentic_loop_stream loads dumps client message hs max_iterations s =
     stream_iterations loads dumps client hs message [0..<nat max_iterations] s"

section \<open>ContextGraphAgentBedrock: the wrapper of agent\_bedrock.py\<close>

text \<open>
  An entry of the history a caller supplies (\<^verbatim>\<open>ConversationMessage\<close> of
  \<^verbatim>\<open>models/api.py\<close>: two strings), and the dictionary it is in the agent's
  history.
\<close>

record conversation_message =
  cm_role :: string
  cm_content :: string

definition as_message :: "conversation_message \<Rightarrow> message" where
  "as_message m = \<lparr>role = cm_role m, content = Plain (cm_content m)\<rparr>"

text \<open>The slice \<^verbatim>\<open>xs[-6:]\<close>.\<close>

definition last_six :: "'a list \<Rightarrow> 'a list" where
  "last_six xs = drop (length xs - 6) xs"

text \<open>
  \<^verbatim>\<open>if conversation_history: for msg in conversation_history[-6:]:
  self.agent.conversation_history.append(msg)\<close>; \<open>None\<close> is the default argument.
\<close>

definition preload_history :: "conversation_message list option \<Rightarrow> state \<Rightarrow> state" where
  "preload_history supplied s =
     (case supplied of
        None \<Rightarrow> s
      | Some h \<Rightarrow>
          (if h \<noteq> []
           then fold (\<lambda>msg a. a\<lparr>conversation_history := conversation_history a @ [as_message msg]\<rparr>)
                  (last_six h) s
           else s))"

text \<open>
  \<^verbatim>\<open>ContextGraphAgentBedrock.query\<close>: it returns the response, the tool calls and
  \<^verbatim>\<open>decisions_made\<close>, which is \<^verbatim>\<open>[]\<close>.
\<close>

definition bedrock_query ::
  "invoke \<Rightarrow> handlers \<Rightarrow> string \<Rightarrow> conversation_message list option \<Rightarrow> state
     \<Rightarrow> state \<times> (string \<times> (string \<times> json) list \<times> string list) result" where
  "bedrock_query client hs message supplied s =
     (case run_agentic_loop client message hs 10 (preload_history supplied s) of
        (s1, Raised e) \<Rightarrow> (s1, Raised e)
      | (s1, Returned (text, calls)) \<Rightarrow> (s1, Returned (text, calls, [])))"

text \<open>
  \<^verbatim>\<open>ContextGraphAgentBedrock.query_stream\<close>: the context event, the events of the
  loop, and \<^verbatim>\<open>{"type": "done", "tool_calls": [], "decisions_made": []}\<close> once the
  loop's generator has ended without raising.
\<close>

definition bedrock_query_stream ::
  "(string \<Rightarrow> json option) \<Rightarrow> (json \<Rightarrow> string) \<Rightarrow> invoke_stream \<Rightarrow> handlers \<Rightarrow> string
     \<Rightarrow> conversation_message list option \<Rightarrow> state \<Rightarrow> state \<times> unit result" where
  "bedrock_query_stream loads dumps client hs message supplied s =
     (let s0 = preload_history supplied s;
          s1 = s0\<lparr>events := events s0 @ [EvAgentContext]\<rparr>
      in case run_agentic_loop_stream loads dumps client message hs 10 s1 of
           (s2, Raised e) \<Rightarrow> (s2, Raised e)
         | (s2, Returned u) \<Rightarrow> (s2\<lparr>events := events s2 @ [EvDone []]\<rparr>, Returned ()))"

section \<open>ContextGraphAgent: the wrapper of the SDK, agent.py\<close>

text \<open>\<^verbatim>\<open>sep.join(xs)\<close>.\<close>

fun str_join :: "string \<Rightarrow> string list \<Rightarrow> string" where
  "str_join sep [] = []"
| "str_join sep [x] = x"
| "str_join sep (x # y # ys) = x @ sep @ str_join sep (y # ys)"

definition newline :: char where
  "newline = CHR 0x0A"

text \<open>
  The message sent to the SDK client, built the same way by \<^verbatim>\<open>query\<close> and
  \<^verbatim>\<open>query_stream\<close>. The argument \<open>upper\<close> is \<^verbatim>\<open>str.upper\<close>.
\<close>

definition full_message ::
  "(string \<Rightarrow> string) \<Rightarrow> string \<Rightarrow> conversation_message list option \<Rightarrow> string" where
  "full_message upper message supplied =
     (case supplied of
        None \<Rightarrow> message
      | Some h \<Rightarrow>
          (if h \<noteq> []
           then ''Previous conversation:'' @ [newline]
                @ str_join [newline]
                    (map (\<lambda>msg. upper (cm_role msg) @ '': '' @ cm_content msg) (last_six h))
                @ [newline, newline]
                @ ''Current message from USER: '' @ message
                @ [newline, newline]
                @ ''Please respond to the current message, taking the conversation history into account.''
           else message))"

text \<open>
  What \<^verbatim>\<open>receive_response\<close> of the SDK client yields. A text block is the one
  with an attribute \<^verbatim>\<open>text\<close>, a tool-use block the one with \<^verbatim>\<open>name\<close>
  (and \<^verbatim>\<open>id\<close>, \<^verbatim>\<open>input\<close>); a tool-result block and a thinking block have
  neither. Only user and assistant messages have \<^verbatim>\<open>content\<close>; a user
  message's content is a string or a list of blocks.
\<close>

datatype sdk_item = TextDict string | OtherDict

datatype sdk_content = ContentNone | ContentStr string | ContentList "sdk_item list"

datatype sdk_block =
    TextBlock string
  | ToolUseBlock string string json
  | ToolResultBlock string sdk_content
  | ThinkingBlock string

datatype sdk_message =
    UserMessageStr string
  | UserMessage "sdk_block list"
  | AssistantMessage "sdk_block list"
  | OtherMessage

text \<open>
  The SDK client: from the message sent to the messages received and then,
  possibly, the exception raised in place of the next one.
\<close>

type_synonym sdk_client = "string \<Rightarrow> sdk_message list \<times> string option"

record sdk_state =
  sdk_events :: "event list"
  sdk_response_text :: string
  sdk_tool_calls :: "(string \<times> json) list"
  tool_id_to_name :: "string \<rightharpoonup> string"

text \<open>\<^verbatim>\<open>try: json.loads(t) except json.JSONDecodeError: t\<close>.\<close>

definition loads_or_raw :: "(string \<Rightarrow> json option) \<Rightarrow> string \<Rightarrow> tool_output" where
  "loads_or_raw loads t = (case loads t of Some v \<Rightarrow> Parsed v | None \<Rightarrow> Raw t)"

text \<open>The first text item of a tool result's content list decides the output.\<close>

fun parse_items :: "(string \<Rightarrow> json option) \<Rightarrow> sdk_item list \<Rightarrow> tool_output" where
  "parse_items loads [] = NoOutput"
| "parse_items loads (TextDict t # items) = loads_or_raw loads t"
| "parse_items loads (OtherDict # items) = parse_items loads items"

fun parse_content :: "(string \<Rightarrow> json option) \<Rightarrow> sdk_content \<Rightarrow> tool_output" where
  "parse_content loads (ContentList items) = parse_items loads items"
| "parse_content loads (ContentStr t) = loads_or_raw loads t"
| "parse_content loads ContentNone = NoOutput"

text \<open>\<^verbatim>\<open>query_stream\<close> on the blocks of a user message with a block list.\<close>

fun stream_user_blocks ::
  "(string \<Rightarrow> json option) \<Rightarrow> sdk_block list \<Rightarrow> sdk_state \<Rightarrow> sdk_state" where
  "stream_user_blocks loads [] s = s"
| "stream_user_blocks loads (ToolResultBlock tool_use_id block_content # bs) s =
     stream_user_blocks loads bs
       (if tool_use_id \<noteq> []
        then s\<lparr>sdk_events := sdk_events s @
                 [EvToolResult
                    (case tool_id_to_name s tool_use_id of None \<Rightarrow> ''unknown'' | Some n \<Rightarrow> n)
                    (parse_content loads block_content)]\<rparr>
        else s)"
| "stream_user_blocks loads (b # bs) s = stream_user_blocks loads bs s"

text \<open>\<^verbatim>\<open>query_stream\<close> on the blocks of any other message that has content.\<close>

fun stream_assistant_blocks :: "sdk_block list \<Rightarrow> sdk_state \<Rightarrow> sdk_state" where
  "stream_assistant_blocks [] s = s"
| "stream_assistant_blocks (TextBlock t # bs) s =
     stream_assistant_blocks bs (s\<lparr>sdk_events := sdk_events s @ [EvText t]\<rparr>)"
| "stream_assistant_blocks (ToolUseBlock tool_id n v # bs) s =
     stream_assistant_blocks bs
       (s\<lparr>sdk_tool_calls := sdk_tool_calls s @ [(n, v)],
          tool_id_to_name := (if tool_id \<noteq> [] then (tool_id_to_name s)(tool_id \<mapsto> n)
                              else tool_id_to_name s),
          sdk_events := sdk_events s @ [EvToolUse n v]\<rparr>)"
| "stream_assistant_blocks (b # bs) s = stream_assistant_blocks bs s"

fun stream_messages ::
  "(string \<Rightarrow> json option) \<Rightarrow> sdk_message list \<Rightarrow> sdk_state \<Rightarrow> sdk_state" where
  "stream_messages loads [] s = s"
| "stream_messages loads (UserMessage bs # ms) s =
     stream_messages loads ms (stream_user_blocks loads bs s)"
| "stream_messages loads (AssistantMessage bs # ms) s =
     stream_messages loads ms (stream_assistant_blocks bs s)"
| "stream_messages loads (m # ms) s = stream_messages loads ms s"

text \<open>
  \<^verbatim>\<open>ContextGraphAgent.query_stream\<close>: the events yielded, and how the generator
  ends. \<open>None\<close> is an agent that is not connected.
\<close>

definition not_connected :: string where
  "not_connected = ''Agent not connected. Use '' @ [CHR 0x27] @ ''async with'' @ [CHR 0x27]
     @ '' context manager.''"

definition sdk_query_stream ::
  "(string \<Rightarrow> json option) \<Rightarrow> (string \<Rightarrow> string) \<Rightarrow> sdk_client option \<Rightarrow> string
     \<Rightarrow> conversation_message list option \<Rightarrow> event list \<times> unit result" where
  "sdk_query_stream loads upper client message supplied =
     (case client of
        None \<Rightarrow> ([], Raised not_connected)
      | Some c \<Rightarrow>
          (case c (full_message upper message supplied) of
             (msgs, failure) \<Rightarrow>
               (let s = stream_messages loads msgs
                          \<lparr>sdk_events = [EvAgentContext], sdk_response_text = [],
                           sdk_tool_calls = [], tool_id_to_name = Map.empty\<rparr>
                in case failure of
                     Some e \<Rightarrow> (sdk_events s, Raised e)
                   | None \<Rightarrow> (sdk_events s @ [EvDone (sdk_tool_calls s)], Returned ()))))"

text \<open>\<^verbatim>\<open>ContextGraphAgent.query\<close>, on the blocks of a message that has content.\<close>

fun query_blocks :: "sdk_block list \<Rightarrow> sdk_state \<Rightarrow> sdk_state" where
  "query_blocks [] s = s"
| "query_blocks (TextBlock t # bs) s =
     query_blocks bs (s\<lparr>sdk_response_text := sdk_response_text s @ t\<rparr>)"
| "query_blocks (ToolUseBlock tool_id n v # bs) s =
     query_blocks bs (s\<lparr>sdk_tool_calls := sdk_tool_calls s @ [(n, v)]\<rparr>)"
| "query_blocks (b # bs) s = query_blocks bs s"

fun query_messages :: "sdk_message list \<Rightarrow> sdk_state \<Rightarrow> sdk_state" where
  "query_messages [] s = s"
| "query_messages (UserMessage bs # ms) s = query_messages ms (query_blocks bs s)"
| "query_messages (AssistantMessage bs # ms) s = query_messages ms (query_blocks bs s)"
| "query_messages (m # ms) s = query_messages ms s"

definition sdk_query ::
  "(string \<Rightarrow> string) \<Rightarrow> sdk_client option \<Rightarrow> string \<Rightarrow> conversation_message list option
     \<Rightarrow> (string \<times> (string \<times> json) list \<times> string list) result" where
  "sdk_query upper client message supplied =
     (case client of
        None \<Rightarrow> Raised not_connected
      | Some c \<Rightarrow>
          (case c (full_message upper message supplied) of
             (msgs, failure) \<Rightarrow>
               (let s = query_messages msgs
                          \<lparr>sdk_events = [], sdk_response_text = [],
                           sdk_tool_calls = [], tool_id_to_name = Map.empty\<rparr>
                in case failure of
                     Some e \<Rightarrow> Raised e
                   | None \<Rightarrow> Returned (sdk_response_text s, sdk_tool_calls s, []))))"

section \<open>Vocabulary of the properties\<close>

text \<open>
  The tool-use blocks of a response, by id, and the tool-result blocks of a
  turn, by the id they answer.
\<close>

fun tool_use_ids :: "block list \<Rightarrow> string list" where
  "tool_use_ids [] = []"
| "tool_use_ids (ToolUse i n v # bs) = i # tool_use_ids bs"
| "tool_use_ids (b # bs) = tool_use_ids bs"


text \<open>
  A handler call that leaves \<^verbatim>\<open>execute_tool\<close> or the loop with an exception:
  it raises a \<^verbatim>\<open>BaseException\<close>, or it returns a value without \<^verbatim>\<open>get\<close>.
  Handlers are contained when no call of theirs does.
\<close>

fun escapes :: "handler_outcome \<Rightarrow> bool" where
  "escapes (RaisesBase e) = True"
| "escapes (Returns (NotDict t)) = True"
| "escapes out = False"

definition contained :: "handlers \<Rightarrow> bool" where
  "contained hs = (\<forall>n h v. hs n = Some h \<longrightarrow> \<not> escapes (h v))"

text \<open>
  The answer to a tool-use block, when its dispatch ends with a dictionary, and
  the answers to the tool-use blocks of a response, in order.
\<close>

definition answer :: "handlers \<Rightarrow> string \<Rightarrow> string \<Rightarrow> json \<Rightarrow> block list" where
  "answer hs i n v =
     (case execute_tool n v hs of Returned (Dict result) \<Rightarrow> [dict_block i result] | other \<Rightarrow> [])"

fun answers :: "handlers \<Rightarrow> block list \<Rightarrow> block list" where
  "answers hs [] = []"
| "answers hs (ToolUse i n v # bs) = answer hs i n v @ answers hs bs"
| "answers hs (b # bs) = answers hs bs"

text \<open>The text of the text blocks of a response, in order.\<close>

fun block_texts :: "block list \<Rightarrow> string list" where
  "block_texts [] = []"
| "block_texts (Text t # bs) = t # block_texts bs"
| "block_texts (b # bs) = block_texts bs"

text \<open>The contents of the text events, the text deltas of a stream, the done events.\<close>

fun text_events :: "event list \<Rightarrow> string list" where
  "text_events [] = []"
| "text_events (EvText t # es) = t # text_events es"
| "text_events (e # es) = text_events es"

fun delta_texts :: "chunk list \<Rightarrow> string list" where
  "delta_texts [] = []"
| "delta_texts (ContentBlockDelta (TextDelta t) # cs) = t # delta_texts cs"
| "delta_texts (c # cs) = delta_texts cs"

fun is_done :: "event \<Rightarrow> bool" where
  "is_done (EvDone calls) = True"
| "is_done e = False"

text \<open>
  The provider's streaming protocol, which the code of the repository reads and
  does not define: a model turn arrives as \<^verbatim>\<open>message_start\<close>, then for each
  content block a \<^verbatim>\<open>content_block_start\<close>, its deltas (the fragments of a text
  block's text, or of the JSON text of a tool-use block's input) and a
  \<^verbatim>\<open>content_block_stop\<close>, then \<^verbatim>\<open>message_delta\<close> and \<^verbatim>\<open>message_stop\<close>.
  A \<open>streamed_block\<close> is a block with its fragments.
\<close>

datatype streamed_block =
    StreamedText "string list"
  | StreamedToolUse string string "string list"

fun block_chunks :: "streamed_block \<Rightarrow> chunk list" where
  "block_chunks (StreamedText fs) =
     ContentBlockStart (Text []) # map (\<lambda>f. ContentBlockDelta (TextDelta f)) fs
       @ [ContentBlockStop]"
| "block_chunks (StreamedToolUse i n ps) =
     ContentBlockStart (ToolUse i n (JObj [])) # map (\<lambda>p. ContentBlockDelta (InputJsonDelta p)) ps
       @ [ContentBlockStop]"

definition stream_of :: "streamed_block list \<Rightarrow> chunk list" where
  "stream_of sbs =
     OtherChunk ''message_start'' # concat (map block_chunks sbs)
       @ [OtherChunk ''message_delta'', MessageStop]"

text \<open>
  The block of the non-streaming response that a streamed block is: the text is
  the concatenation of the fragments, the input the JSON value of the
  concatenation of the fragments.
\<close>

fun streamed_as :: "(string \<Rightarrow> json option) \<Rightarrow> streamed_block \<Rightarrow> block \<Rightarrow> bool" where
  "streamed_as loads (StreamedText fs) (Text t) = (t = concat fs)"
| "streamed_as loads (StreamedToolUse i n ps) (ToolUse i' n' v) =
     (i = i' \<and> n = n' \<and> loads (concat ps) = Some v)"
| "streamed_as loads sb b = False"

fun streamed_ids :: "streamed_block list \<Rightarrow> string list" where
  "streamed_ids [] = []"
| "streamed_ids (StreamedToolUse i n ps # sbs) = i # streamed_ids sbs"
| "streamed_ids (sb # sbs) = streamed_ids sbs"



text \<open>The tool calls of the messages of the SDK client, in order.\<close>

fun block_tool_calls :: "sdk_block list \<Rightarrow> (string \<times> json) list" where
  "block_tool_calls [] = []"
| "block_tool_calls (ToolUseBlock i n v # bs) = (n, v) # block_tool_calls bs"
| "block_tool_calls (b # bs) = block_tool_calls bs"

fun message_tool_calls :: "sdk_message list \<Rightarrow> (string \<times> json) list" where
  "message_tool_calls [] = []"
| "message_tool_calls (AssistantMessage bs # ms) = block_tool_calls bs @ message_tool_calls ms"
| "message_tool_calls (m # ms) = message_tool_calls ms"

text \<open>
  The state at the call of the client in \<^verbatim>\<open>run_agentic_loop_stream\<close>, and the
  state after \<^verbatim>\<open>query\<close> has returned in \<^verbatim>\<open>run_agentic_loop\<close>.
\<close>

abbreviation stream_start :: "string \<Rightarrow> state \<Rightarrow> state" where
  "stream_start msg s \<equiv>
     s\<lparr>current_tool_use := None, tool_results := [], has_tool_use := False,
       conversation_history := conversation_history s @ [user_turn (Plain msg)],
       requests := requests s @ [conversation_history s @ [user_turn (Plain msg)]],
       accumulated_content := [], shared_turns := []\<rparr>"

abbreviation after_query :: "response \<Rightarrow> string \<Rightarrow> state \<Rightarrow> state" where
  "after_query resp msg s \<equiv>
     s\<lparr>requests := requests s @ [conversation_history s @ [user_turn (Plain msg)]],
       conversation_history :=
         conversation_history s @ [user_turn (Plain msg)]
           @ (if resp_content resp \<noteq> [] then [assistant_turn (resp_content resp)] else []),
       has_tool_use := False, tool_results := []\<rparr>"

section \<open>Example inputs\<close>

text \<open>
  Handlers that return a result or raise an \<^verbatim>\<open>Exception\<close>, and handlers that
  are cancelled or return \<^verbatim>\<open>None\<close>.
\<close>

definition demo_handlers :: handlers where
  "demo_handlers =
     [''search_customer'' \<mapsto>
        (\<lambda>v. Returns (Dict \<lparr>tr_content = Some [TextItem ''1 customer''], tr_is_error = None\<rparr>)),
      ''get_policy'' \<mapsto> (\<lambda>v. RaisesException ''connection refused'')]"


text \<open>
  A turn that calls \<^verbatim>\<open>search_customer\<close> with the input
  \<^verbatim>\<open>{"query": "Bob"}\<close>, sent in two fragments.
\<close>

definition bob_fragments :: "string list" where
  "bob_fragments =
     [''{'' @ [CHR 0x22] @ ''query'' @ [CHR 0x22] @ '': '',
      [CHR 0x22] @ ''Bob'' @ [CHR 0x22] @ ''}'']"

definition bob_turn :: "streamed_block list" where
  "bob_turn = [StreamedText [''Let me '', ''look.''],
               StreamedToolUse ''toolu_01'' ''search_customer'' bob_fragments]"

definition bob_input :: json where
  "bob_input = JObj [(''query'', JStr ''Bob'')]"

text \<open>A JSON decoder that knows this one text, and an encoder of \<^verbatim>\<open>{}\<close>.\<close>

definition demo_loads :: "string \<Rightarrow> json option" where
  "demo_loads t = (if t = concat bob_fragments then Some bob_input else None)"

definition demo_dumps :: "json \<Rightarrow> string" where
  "demo_dumps v = ''{}''"

text \<open>
  What holds all through a streaming run: the input of the tool call being
  assembled, and of every call dispatched, is \<^verbatim>\<open>{}\<close>.
\<close>

definition input_empty :: "state \<Rightarrow> bool" where
  "input_empty s = (case current_tool_use s of None \<Rightarrow> True | Some (i, n, v) \<Rightarrow> v = JObj [])"

definition all_empty :: "state \<Rightarrow> bool" where
  "all_empty s = list_all (\<lambda>d. snd d = JObj []) (dispatched s)"

text \<open>The text of the response to a request; none when the client raises.\<close>

definition reply_text :: "invoke \<Rightarrow> message list \<Rightarrow> string" where
  "reply_text client q =
     (case client q of Inl e \<Rightarrow> [] | Inr resp \<Rightarrow> concat (block_texts (resp_content resp)))"


definition truncated_response :: response where
  "truncated_response = \<lparr>stop_reason = Some ''max_tokens'', resp_content = [Text ''The policy sa'']\<rparr>"

text \<open>A stream cut by the network in the middle of a text block, and a turn without tools.\<close>

definition cut_stream :: "chunk list" where
  "cut_stream = [OtherChunk ''message_start'', ContentBlockStart (Text []),
                 ContentBlockDelta (TextDelta ''Based on polic'')]"

definition cut_client :: invoke_stream where
  "cut_client m = (cut_stream, Some ''connection reset'')"

definition plain_turn :: "streamed_block list" where
  "plain_turn = [StreamedText [''All '', ''clear.'']]"

text \<open>
  A conversation of two turns, the tool call of \<open>bob_turn\<close> and then the answer
  of \<open>plain_turn\<close>; a client that is refused at once; and two SDK clients.
\<close>

definition two_turn_client :: invoke_stream where
  "two_turn_client m =
     (if length m = 1 then (stream_of bob_turn, None) else (stream_of plain_turn, None))"

definition refused_client :: invoke_stream where
  "refused_client m = ([], Some ''throttled'')"

definition demo_sdk :: sdk_client where
  "demo_sdk m =
     ([AssistantMessage [TextBlock ''Looking.'', ToolUseBlock ''toolu_04'' ''get_policy'' (JObj [])],
       UserMessage [ToolResultBlock ''toolu_04'' (ContentStr ''ok'')],
       AssistantMessage [TextBlock ''Done.'']], None)"

definition failing_sdk :: sdk_client where
  "failing_sdk m = ([AssistantMessage [TextBlock ''Look'']], Some ''process exited'')"



text \<open>
  The turn of \<open>truncated_response\<close> as a stream, and a stream that ends after
  its last block, without \<^verbatim>\<open>message_stop\<close> and without an exception.
\<close>

definition truncated_turn :: "streamed_block list" where
  "truncated_turn = [StreamedText [''The policy sa'']]"

definition unfinished_stream :: "chunk list" where
  "unfinished_stream = OtherChunk ''message_start'' # concat (map block_chunks truncated_turn)"

text \<open>
  An SDK client that answers with the prompt it is sent, a history of eight
  messages, and \<^verbatim>\<open>str.upper\<close> on the two roles.
\<close>

definition echo_sdk :: sdk_client where
  "echo_sdk prompt = ([AssistantMessage [TextBlock prompt]], None)"

definition long_history :: "conversation_message list" where
  "long_history =
     [\<lparr>cm_role = ''user'', cm_content = ''one''\<rparr>, \<lparr>cm_role = ''assistant'', cm_content = ''two''\<rparr>,
      \<lparr>cm_role = ''user'', cm_content = ''three''\<rparr>, \<lparr>cm_role = ''assistant'', cm_content = ''four''\<rparr>,
      \<lparr>cm_role = ''user'', cm_content = ''five''\<rparr>, \<lparr>cm_role = ''assistant'', cm_content = ''six''\<rparr>,
      \<lparr>cm_role = ''user'', cm_content = ''seven''\<rparr>, \<lparr>cm_role = ''assistant'', cm_content = ''eight''\<rparr>]"

definition demo_upper :: "string \<Rightarrow> string" where
  "demo_upper r = (if r = ''user'' then ''USER'' else if r = ''assistant'' then ''ASSISTANT'' else r)"





text \<open>
  A stream in which a second tool-use block follows the \<^verbatim>\<open>message_stop\<close>
  of the first.
\<close>

definition late_tool_stream :: "chunk list" where
  "late_tool_stream =
     block_chunks (StreamedToolUse ''toolu_07'' ''search_customer'' [])
       @ [MessageStop]
       @ block_chunks (StreamedToolUse ''toolu_08'' ''get_policy'' [])"

section \<open>Unfolding the loop bodies\<close>

lemma stream_body_eq:
  assumes "client (conversation_history s @ [user_turn (Plain msg)]) = (cs, failure)"
    and "consume loads dumps hs cs (stream_start msg s) = (s1, r)"
  shows "stream_body loads dumps client hs msg s =
     (if r = Returned False
      then case failure of
             Some e \<Rightarrow> (s1, Raised e)
           | None \<Rightarrow>
               (if accumulated_content s1 \<noteq> []
                then s1\<lparr>conversation_history :=
                         conversation_history s1 @ [assistant_turn (accumulated_content s1)]\<rparr>
                else s1, Returned False)
      else (s1, r))"
proof (cases r)
  case (Raised e)
  then show ?thesis using assms by (simp add: stream_body_def Let_def)
next
  case (Returned b)
  then show ?thesis using assms by (cases b) (simp_all add: stream_body_def Let_def)
qed

lemma loop_body_raise:
  assumes "client (conversation_history s @ [user_turn (Plain msg)]) = Inl e"
  shows "loop_body client hs msg s =
     (s\<lparr>requests := requests s @ [conversation_history s @ [user_turn (Plain msg)]]\<rparr>, Raised e)"
  using assms by (simp add: loop_body_def query_def Let_def)

lemma loop_body_return:
  assumes "client (conversation_history s @ [user_turn (Plain msg)]) = Inr resp"
    and "process_blocks hs (resp_content resp) (after_query resp msg s) = (s2, r)"
  shows "loop_body client hs msg s =
     (case r of
        Raised e \<Rightarrow> (s2, Raised e)
      | Returned u \<Rightarrow>
          (if has_tool_use s2 \<and> tool_results s2 \<noteq> []
           then (s2\<lparr>conversation_history :=
                      conversation_history s2 @ [user_turn (Blocks (tool_results s2))]\<rparr>,
                 Returned False)
           else if stop_reason resp = Some ''end_turn'' then (s2, Returned True)
           else (s2, Returned False)))"
proof (cases r)
  case (Raised e)
  then show ?thesis using assms
    by (cases "resp_content resp = []") (auto simp: loop_body_def query_def Let_def)
next
  case (Returned u)
  then show ?thesis using assms
    by (cases "resp_content resp = []") (auto simp: loop_body_def query_def Let_def)
qed

section \<open>Tool dispatch\<close>

lemma execute_tool_contained:
  assumes "contained hs"
  shows "\<exists>result. execute_tool n v hs = Returned (Dict result)"
proof (cases "hs n")
  case None
  then show ?thesis by (simp add: execute_tool_def)
next
  case (Some h)
  then have ne: "\<not> escapes (h v)" using assms by (simp add: contained_def)
  show ?thesis
  proof (cases "h v")
    case (Returns val)
    then show ?thesis using ne Some by (cases val) (simp_all add: execute_tool_def)
  next
    case (RaisesException e)
    then show ?thesis using Some by (simp add: execute_tool_def)
  next
    case (RaisesBase e)
    then show ?thesis using ne by simp
  qed
qed


lemma process_blocks_frame:
  "requests (fst (process_blocks hs bs s)) = requests s
   \<and> conversation_history (fst (process_blocks hs bs s)) = conversation_history s
   \<and> events (fst (process_blocks hs bs s)) = events s"
  by (induction hs bs s rule: process_blocks.induct)
     (simp_all add: Let_def split: result.splits)

lemma process_blocks_returned:
  "snd (process_blocks hs bs s) = Returned () \<Longrightarrow>
     tool_results (fst (process_blocks hs bs s)) = tool_results s @ answers hs bs
     \<and> has_tool_use (fst (process_blocks hs bs s)) = (has_tool_use s \<or> tool_use_ids bs \<noteq> [])
     \<and> response_text (fst (process_blocks hs bs s)) = response_text s @ concat (block_texts bs)"
proof (induction hs bs s rule: process_blocks.induct)
  case (1 hs s)
  then show ?case by simp
next
  case (2 hs t bs s)
  then show ?case by simp
next
  case (3 hs i n v bs s)
  let ?s1 = "s\<lparr>has_tool_use := True, tool_calls := tool_calls s @ [(n, v)],
                 dispatched := dispatched s @ [(n, v)]\<rparr>"
  show ?case
  proof (cases "execute_tool n v hs")
    case (Raised e)
    then show ?thesis using "3.prems" by (simp add: Let_def)
  next
    case (Returned val)
    show ?thesis
    proof (cases val)
      case (NotDict t)
      then show ?thesis using "3.prems" Returned by (simp add: Let_def)
    next
      case (Dict result)
      have p: "snd (process_blocks hs bs
                 (?s1\<lparr>tool_results := tool_results ?s1 @ [dict_block i result]\<rparr>)) = Returned ()"
        using "3.prems" Returned Dict by (simp add: Let_def)
      have ih: "tool_results (fst (process_blocks hs bs
                 (?s1\<lparr>tool_results := tool_results ?s1 @ [dict_block i result]\<rparr>))) =
             tool_results (?s1\<lparr>tool_results := tool_results ?s1 @ [dict_block i result]\<rparr>)
               @ answers hs bs
           \<and> has_tool_use (fst (process_blocks hs bs
                 (?s1\<lparr>tool_results := tool_results ?s1 @ [dict_block i result]\<rparr>))) =
             (has_tool_use (?s1\<lparr>tool_results := tool_results ?s1 @ [dict_block i result]\<rparr>)
               \<or> tool_use_ids bs \<noteq> [])
           \<and> response_text (fst (process_blocks hs bs
                 (?s1\<lparr>tool_results := tool_results ?s1 @ [dict_block i result]\<rparr>))) =
             response_text (?s1\<lparr>tool_results := tool_results ?s1 @ [dict_block i result]\<rparr>)
               @ concat (block_texts bs)"
        using "3.IH"[OF refl Returned _ p] Dict by simp
      show ?thesis using ih Returned Dict by (simp add: Let_def answer_def)
    qed
  qed
next
  case (4 hs i c e bs s)
  then show ?case by simp
qed


lemma process_blocks_no_tool:
  "tool_use_ids bs = [] \<Longrightarrow> snd (process_blocks hs bs s) = Returned ()"
  by (induction hs bs s rule: process_blocks.induct) simp_all

lemma demo_handlers_contained: "contained demo_handlers"
  by (auto simp: contained_def demo_handlers_def split: if_splits)




lemma on_chunk_contained:
  "contained hs \<Longrightarrow> snd (on_chunk loads dumps hs c s) \<noteq> Raised e"
proof (cases "(loads, dumps, hs, c, s)" rule: on_chunk.cases)
  case (6 loads' dumps' hs' s')
  assume c: "contained hs"
  show ?thesis
  proof (cases "current_tool_use s")
    case None
    then show ?thesis using 6 by simp
  next
    case (Some t)
    obtain i n v where t: "t = (i, n, v)" by (cases t)
    obtain result where "execute_tool n v hs = Returned (Dict result)"
      using execute_tool_contained[OF c, of n v] by blast
    then show ?thesis using 6 Some t by (simp add: Let_def)
  qed
qed (auto split: option.splits)

lemma consume_contained:
  "contained hs \<Longrightarrow> snd (consume loads dumps hs cs s) \<noteq> Raised e"
proof (induction cs arbitrary: s)
  case Nil
  then show ?case by simp
next
  case (Cons c cs)
  obtain acc y where q: "query_stream_step c (accumulated_content s) = (acc, y)"
    by (cases "query_stream_step c (accumulated_content s)")
  show ?case
  proof (cases y)
    case False
    then show ?thesis using q Cons by simp
  next
    case True
    obtain s1 r where o: "on_chunk loads dumps hs c (s\<lparr>accumulated_content := acc\<rparr>) = (s1, r)"
      by (cases "on_chunk loads dumps hs c (s\<lparr>accumulated_content := acc\<rparr>)")
    have "r \<noteq> Raised e"
      using on_chunk_contained[OF Cons.prems, of loads dumps c "s\<lparr>accumulated_content := acc\<rparr>" e] o
      by simp
    then show ?thesis using q True o Cons.IH[OF Cons.prems, of s1]
      by (cases r) (auto split: bool.splits)
  qed
qed


section \<open>query and query\_stream\<close>

text \<open>
  Claim C10. When the client raises, \<^verbatim>\<open>query\<close> raises and leaves the history
  as it was; when the client returns, the user turn (and the assistant turn, for
  a response with content) is appended. When the stream raises, after any number
  of chunks, \<^verbatim>\<open>query_stream\<close> raises and the history is the old one with the
  user turn appended and no assistant turn.
\<close>

theorem query_history_on_failure:
  "(client (conversation_history s @ [user_turn (Plain msg)]) = Inl e \<longrightarrow>
      fst (query client msg s) = Raised e
      \<and> conversation_history (snd (query client msg s)) = conversation_history s)
   \<and> (\<forall>resp. client (conversation_history s @ [user_turn (Plain msg)]) = Inr resp \<longrightarrow>
      fst (query client msg s) = Returned resp
      \<and> conversation_history (snd (query client msg s)) =
          conversation_history s @ [user_turn (Plain msg)]
            @ (if resp_content resp \<noteq> [] then [assistant_turn (resp_content resp)] else []))
   \<and> (\<forall>cs. sclient (conversation_history s @ [user_turn (Plain msg)]) = (cs, Some e) \<longrightarrow>
      snd (fst (query_stream sclient msg s)) = Raised e
      \<and> conversation_history (snd (query_stream sclient msg s)) =
          conversation_history s @ [user_turn (Plain msg)])"
  by (auto simp: query_def query_stream_def Let_def split: prod.splits)

theorem query_history_on_failure_witness:
  "fst (query (\<lambda>m. Inl ''throttled'') ''hello'' new_agent) = Raised ''throttled''
   \<and> conversation_history (snd (query (\<lambda>m. Inl ''throttled'') ''hello'' new_agent)) = []
   \<and> conversation_history
        (snd (query (\<lambda>m. Inr \<lparr>stop_reason = Some ''end_turn'', resp_content = [Text ''Hi.'']\<rparr>)
                ''hello'' new_agent)) =
        [user_turn (Plain ''hello''), assistant_turn [Text ''Hi.'']]
   \<and> snd (fst (query_stream
        (\<lambda>m. ([ContentBlockStart (Text []), ContentBlockDelta (TextDelta ''Based on polic'')],
               Some ''connection reset'')) ''hello'' new_agent)) = Raised ''connection reset''
   \<and> conversation_history (snd (query_stream
        (\<lambda>m. ([ContentBlockStart (Text []), ContentBlockDelta (TextDelta ''Based on polic'')],
               Some ''connection reset'')) ''hello'' new_agent)) = [user_turn (Plain ''hello'')]"
proof -
  let ?ok = "\<lparr>stop_reason = Some ''end_turn'', resp_content = [Text ''Hi.'']\<rparr>"
  let ?cs = "[ContentBlockStart (Text []), ContentBlockDelta (TextDelta ''Based on polic'')]"
  have h: "conversation_history new_agent = []"
    by (simp add: new_agent_def)
  have a: "fst (query (\<lambda>m. Inl ''throttled'') ''hello'' new_agent) = Raised ''throttled''
      \<and> conversation_history (snd (query (\<lambda>m. Inl ''throttled'') ''hello'' new_agent))
          = conversation_history new_agent"
    using query_history_on_failure
            [of "\<lambda>m. Inl ''throttled''" new_agent "''hello''" "''throttled''"]
    by blast
  have b: "conversation_history (snd (query (\<lambda>m. Inr ?ok) ''hello'' new_agent)) =
      conversation_history new_agent @ [user_turn (Plain ''hello'')]
        @ (if resp_content ?ok \<noteq> [] then [assistant_turn (resp_content ?ok)] else [])"
    using query_history_on_failure [of "\<lambda>m. Inr ?ok" new_agent "''hello''"]
    by blast
  have c: "snd (fst (query_stream (\<lambda>m. (?cs, Some ''connection reset'')) ''hello'' new_agent))
        = Raised ''connection reset''
      \<and> conversation_history
          (snd (query_stream (\<lambda>m. (?cs, Some ''connection reset'')) ''hello'' new_agent))
        = conversation_history new_agent @ [user_turn (Plain ''hello'')]"
    using query_history_on_failure
            [of _ new_agent "''hello''" "''connection reset''"
                "\<lambda>m. (?cs, Some ''connection reset'')"]
    by blast
  show ?thesis using a b c h by simp
qed

section \<open>The input of a streamed tool call\<close>

lemma on_chunk_keeps:
  "input_empty s \<Longrightarrow> all_empty s \<Longrightarrow> snd (query_stream_step c acc) \<Longrightarrow>
     input_empty (fst (on_chunk loads dumps hs c s)) \<and> all_empty (fst (on_chunk loads dumps hs c s))"
  by (cases "(loads, dumps, hs, c, s)" rule: on_chunk.cases)
     (auto simp: input_empty_def all_empty_def Let_def
           split: option.splits result.splits py_value.splits)

lemma consume_keeps:
  "input_empty s \<Longrightarrow> all_empty s \<Longrightarrow>
     input_empty (fst (consume loads dumps hs cs s)) \<and> all_empty (fst (consume loads dumps hs cs s))"
proof (induction cs arbitrary: s)
  case Nil
  then show ?case by simp
next
  case (Cons c cs)
  obtain acc y where q: "query_stream_step c (accumulated_content s) = (acc, y)"
    by (cases "query_stream_step c (accumulated_content s)")
  let ?s0 = "s\<lparr>accumulated_content := acc\<rparr>"
  have s0: "input_empty ?s0" "all_empty ?s0"
    using Cons.prems by (simp_all add: input_empty_def all_empty_def)
  show ?case
  proof (cases y)
    case False
    then show ?thesis using q Cons.IH[OF s0] by simp
  next
    case True
    obtain s1 r where o: "on_chunk loads dumps hs c ?s0 = (s1, r)"
      by (cases "on_chunk loads dumps hs c ?s0")
    have "snd (query_stream_step c (accumulated_content s))" using q True by simp
    from on_chunk_keeps[OF s0 this, of loads dumps hs] o
    have s1: "input_empty s1" "all_empty s1" by simp_all
    show ?thesis using q True o s1 Cons.IH[OF s1]
      by (cases r) (auto split: bool.splits)
  qed
qed

lemma stream_body_keeps:
  assumes "all_empty s"
  shows "all_empty (fst (stream_body loads dumps client hs msg s))"
proof -
  have "input_empty (stream_start msg s)" "all_empty (stream_start msg s)"
    using assms by (simp_all add: input_empty_def all_empty_def)
  from consume_keeps[OF this]
  have k: "\<And>cs. all_empty (fst (consume loads dumps hs cs (stream_start msg s)))" by simp
  obtain cs failure where c: "client (conversation_history s @ [user_turn (Plain msg)]) = (cs, failure)"
    by (cases "client (conversation_history s @ [user_turn (Plain msg)])")
  obtain s1 r where d: "consume loads dumps hs cs (stream_start msg s) = (s1, r)"
    by (cases "consume loads dumps hs cs (stream_start msg s)")
  have "all_empty s1" using k[of cs] d by simp
  then show ?thesis
    using stream_body_eq[where client = client and s = s and msg = msg, OF c d]
    by (auto simp: all_empty_def split: option.splits)
qed

lemma stream_iterations_keeps:
  "all_empty s \<Longrightarrow> all_empty (fst (stream_iterations loads dumps client hs message its s))"
proof (induction its arbitrary: s)
  case Nil
  then show ?case by simp
next
  case (Cons i its)
  let ?m = "if i = 0 then message else []"
  obtain s1 r where b: "stream_body loads dumps client hs ?m s = (s1, r)"
    by (cases "stream_body loads dumps client hs ?m s")
  have s1: "all_empty s1" using stream_body_keeps[OF Cons.prems, of loads dumps client hs ?m] b by simp
  show ?case using b s1 Cons.IH[OF s1]
    by (cases r) (auto split: bool.splits)
qed

text \<open>
  Whatever the chunks, the JSON decoder and the encoder, every tool call of the
  streaming loop is dispatched with the input \<^verbatim>\<open>{}\<close>: \<^verbatim>\<open>query_stream\<close>
  yields no \<^verbatim>\<open>input_json_delta\<close> chunk to the loop.
\<close>

lemma stream_dispatch_input_always_empty:
  "list_all (\<lambda>d. snd d = JObj [])
     (dispatched (fst (run_agentic_loop_stream loads dumps client message hs max_iterations
        (s\<lparr>dispatched := []\<rparr>))))"
  using stream_iterations_keeps[of "s\<lparr>dispatched := []\<rparr>"]
  by (simp add: run_agentic_loop_stream_def all_empty_def)

text \<open>
  Claim C1 says that the input a streamed tool call is dispatched with is the
  JSON value of the concatenation of its \<^verbatim>\<open>input_json_delta\<close> fragments. On
  the turn \<open>bob_turn\<close>, whose fragments concatenate to
  \<^verbatim>\<open>{"query": "Bob"}\<close>, the streaming loop dispatches \<^verbatim>\<open>search_customer\<close>
  with the input \<^verbatim>\<open>{}\<close>, which is not the value of that text.
\<close>

theorem stream_dispatch_ignores_fragments:
  "dispatched (fst (run_agentic_loop_stream demo_loads demo_dumps (\<lambda>m. (stream_of bob_turn, None))
      ''find Bob'' demo_handlers 1 new_agent)) = [(''search_customer'', JObj [])]
   \<and> demo_loads (concat bob_fragments) = Some bob_input
   \<and> bob_input \<noteq> JObj []"
  by code_simp

section \<open>The non-streaming loop\<close>

lemma loop_body_requests:
  "requests (fst (loop_body client hs msg s)) =
     requests s @ [conversation_history s @ [user_turn (Plain msg)]]"
proof (cases "client (conversation_history s @ [user_turn (Plain msg)])")
  case (Inl e)
  then show ?thesis by (simp add: loop_body_raise)
next
  case (Inr resp)
  obtain s2 r where p: "process_blocks hs (resp_content resp) (after_query resp msg s) = (s2, r)"
    by (cases "process_blocks hs (resp_content resp) (after_query resp msg s)")
  have "requests s2 = requests s @ [conversation_history s @ [user_turn (Plain msg)]]"
    using process_blocks_frame[of hs "resp_content resp" "after_query resp msg s"] p by simp
  then show ?thesis
    using loop_body_return[where client = client and s = s and msg = msg, OF Inr p]
    by (cases r) simp_all
qed

lemma loop_body_text:
  assumes "snd (loop_body client hs msg s) = Returned b"
  shows "response_text (fst (loop_body client hs msg s)) =
     response_text s @ reply_text client (conversation_history s @ [user_turn (Plain msg)])"
proof (cases "client (conversation_history s @ [user_turn (Plain msg)])")
  case (Inl e)
  then show ?thesis using assms by (simp add: loop_body_raise)
next
  case (Inr resp)
  obtain s2 r where p: "process_blocks hs (resp_content resp) (after_query resp msg s) = (s2, r)"
    by (cases "process_blocks hs (resp_content resp) (after_query resp msg s)")
  have r: "r = Returned ()"
    using assms loop_body_return[where client = client and s = s and msg = msg, OF Inr p]
    by (cases r) simp_all
  then have "snd (process_blocks hs (resp_content resp) (after_query resp msg s)) = Returned ()"
    using p by simp
  from process_blocks_returned[OF this]
  have "response_text s2 = response_text s @ concat (block_texts (resp_content resp))"
    using p by simp
  then show ?thesis
    using loop_body_return[where client = client and s = s and msg = msg, OF Inr p] r Inr
    by (simp add: reply_text_def)
qed

lemma loop_iterations_trace:
  "\<exists>new. requests (fst (loop_iterations client hs message its s)) = requests s @ new
     \<and> length new \<le> length its
     \<and> (snd (loop_iterations client hs message its s) = Returned () \<longrightarrow>
          response_text (fst (loop_iterations client hs message its s)) =
            response_text s @ concat (map (reply_text client) new))"
proof (induction its arbitrary: s)
  case Nil
  then show ?case by simp
next
  case (Cons i its)
  let ?m = "if i = 0 then message else []"
  let ?q = "conversation_history s @ [user_turn (Plain ?m)]"
  obtain s1 r where b: "loop_body client hs ?m s = (s1, r)"
    by (cases "loop_body client hs ?m s")
  have rq: "requests s1 = requests s @ [?q]"
    using loop_body_requests[of client hs ?m s] b by simp
  have tx: "response_text s1 = response_text s @ reply_text client ?q" if "r = Returned f" for f
    using loop_body_text[of client hs ?m s f] b that by simp
  show ?case
  proof (cases "r = Returned False")
    case True
    from Cons.IH[of s1] obtain new where
      n: "requests (fst (loop_iterations client hs message its s1)) = requests s1 @ new"
         "length new \<le> length its"
         "snd (loop_iterations client hs message its s1) = Returned () \<longrightarrow>
          response_text (fst (loop_iterations client hs message its s1)) =
            response_text s1 @ concat (map (reply_text client) new)"
      by blast
    have "loop_iterations client hs message (i # its) s = loop_iterations client hs message its s1"
      using b True by simp
    then show ?thesis using n rq tx[OF True]
      by (intro exI[of _ "?q # new"]) simp
  next
    case False
    then have l: "loop_iterations client hs message (i # its) s =
        (s1, case r of Raised e \<Rightarrow> Raised e | Returned f \<Rightarrow> Returned ())"
      using b by (cases r) (auto split: bool.splits)
    show ?thesis
    proof (cases r)
      case (Raised e)
      then show ?thesis using l rq by (intro exI[of _ "[?q]"]) simp
    next
      case (Returned f)
      then show ?thesis using l rq tx[OF Returned] by (intro exI[of _ "[?q]"]) simp
    qed
  qed
qed



lemma run_agentic_loop_eq:
  "run_agentic_loop client message hs max_iterations s =
     (let p = loop_iterations client hs message [0..<nat max_iterations]
                (s\<lparr>response_text := [], tool_calls := []\<rparr>)
      in (fst p, case snd p of Raised e \<Rightarrow> Raised e
                  | Returned u \<Rightarrow> Returned (response_text (fst p), tool_calls (fst p))))"
  by (simp add: run_agentic_loop_def Let_def split: prod.splits result.splits)

lemma last_six_idem: "last_six (last_six h) = last_six h"
  by (simp add: last_six_def)

lemma last_six_empty: "(last_six h = []) = (h = [])"
  by (cases h) (simp_all add: last_six_def)

lemma fold_append_history:
  "fold (\<lambda>msg a. a\<lparr>conversation_history := conversation_history a @ [f msg]\<rparr>) xs s =
     s\<lparr>conversation_history := conversation_history s @ map f xs\<rparr>"
  by (induction xs arbitrary: s) simp_all

lemma preload_history_eq:
  "preload_history (Some h) s =
     s\<lparr>conversation_history := conversation_history s @ map as_message (last_six h)\<rparr>"
  by (cases "h = []") (simp_all add: preload_history_def fold_append_history last_six_def)





section \<open>The streaming loop, chunk by chunk\<close>

lemma text_events_append: "text_events (xs @ ys) = text_events xs @ text_events ys"
  by (induction xs rule: text_events.induct) simp_all

lemma delta_texts_Cons: "delta_texts (c # cs) = delta_texts [c] @ delta_texts cs"
  by (cases "c # cs" rule: delta_texts.cases) simp_all

lemma not_yielded_no_text: "\<not> snd (query_stream_step c acc) \<Longrightarrow> delta_texts [c] = []"
  by (cases "(c, acc)" rule: query_stream_step.cases) simp_all

lemma share_none: "share results [] history = history"
  by (simp add: share_def)

lemma on_chunk_frame:
  "requests (fst (on_chunk loads dumps hs c s)) = requests s
   \<and> filter is_done (events (fst (on_chunk loads dumps hs c s))) = filter is_done (events s)
   \<and> accumulated_content (fst (on_chunk loads dumps hs c s)) = accumulated_content s"
  by (cases "(loads, dumps, hs, c, s)" rule: on_chunk.cases)
     (auto simp: Let_def split: option.splits result.splits py_value.splits)

lemma on_chunk_text:
  "snd (on_chunk loads dumps hs c s) = Returned b \<Longrightarrow>
     text_events (events (fst (on_chunk loads dumps hs c s))) =
       text_events (events s) @ delta_texts [c]"
  by (cases "(loads, dumps, hs, c, s)" rule: on_chunk.cases)
     (auto simp: Let_def text_events_append split: option.splits result.splits py_value.splits)

lemma on_chunk_not_stop:
  "c \<noteq> MessageStop \<Longrightarrow> shared_turns s = [] \<Longrightarrow>
     snd (on_chunk loads dumps hs c s) \<noteq> Returned True
     \<and> conversation_history (fst (on_chunk loads dumps hs c s)) = conversation_history s
     \<and> shared_turns (fst (on_chunk loads dumps hs c s)) = []"
  by (cases "(loads, dumps, hs, c, s)" rule: on_chunk.cases)
     (auto simp: Let_def share_none split: option.splits result.splits py_value.splits)

lemma consume_frame:
  "requests (fst (consume loads dumps hs cs s)) = requests s
   \<and> filter is_done (events (fst (consume loads dumps hs cs s))) = filter is_done (events s)"
proof (induction cs arbitrary: s)
  case Nil
  then show ?case by simp
next
  case (Cons c cs)
  obtain acc y where q: "query_stream_step c (accumulated_content s) = (acc, y)"
    by (cases "query_stream_step c (accumulated_content s)")
  let ?s0 = "s\<lparr>accumulated_content := acc\<rparr>"
  obtain s1 r where o: "on_chunk loads dumps hs c ?s0 = (s1, r)"
    by (cases "on_chunk loads dumps hs c ?s0")
  have f: "requests s1 = requests s" "filter is_done (events s1) = filter is_done (events s)"
    using on_chunk_frame[of loads dumps hs c ?s0] o by simp_all
  show ?case
  proof (cases y)
    case False
    then show ?thesis using q Cons.IH[of ?s0] by simp
  next
    case True
    then show ?thesis using q o f Cons.IH[of s1]
      by (cases r) (auto split: bool.splits)
  qed
qed

lemma consume_no_stop:
  "MessageStop \<notin> set cs \<Longrightarrow> shared_turns s = [] \<Longrightarrow>
     snd (consume loads dumps hs cs s) \<noteq> Returned True
     \<and> conversation_history (fst (consume loads dumps hs cs s)) = conversation_history s
     \<and> (snd (consume loads dumps hs cs s) = Returned False \<longrightarrow>
          text_events (events (fst (consume loads dumps hs cs s))) =
            text_events (events s) @ delta_texts cs)"
proof (induction cs arbitrary: s)
  case Nil
  then show ?case by simp
next
  case (Cons c cs)
  have ns: "c \<noteq> MessageStop" "MessageStop \<notin> set cs" using Cons.prems by auto
  obtain acc y where q: "query_stream_step c (accumulated_content s) = (acc, y)"
    by (cases "query_stream_step c (accumulated_content s)")
  let ?s0 = "s\<lparr>accumulated_content := acc\<rparr>"
  have sh0: "shared_turns ?s0 = []" using Cons.prems by simp
  obtain s1 r where o: "on_chunk loads dumps hs c ?s0 = (s1, r)"
    by (cases "on_chunk loads dumps hs c ?s0")
  have r: "r \<noteq> Returned True" "conversation_history s1 = conversation_history s"
      "shared_turns s1 = []"
    using on_chunk_not_stop[OF ns(1) sh0, of loads dumps hs] o by simp_all
  show ?case
  proof (cases y)
    case False
    then have "delta_texts [c] = []" using q not_yielded_no_text[of c "accumulated_content s"] by simp
    then show ?thesis using False q Cons.IH[OF ns(2) sh0] delta_texts_Cons[of c cs] by simp
  next
    case True
    show ?thesis
    proof (cases r)
      case (Raised e)
      then show ?thesis using q o r True by simp
    next
      case (Returned b)
      then have b: "r = Returned False" using r(1) by (cases b) simp_all
      have t: "text_events (events s1) = text_events (events s) @ delta_texts [c]"
        using on_chunk_text[of loads dumps hs c ?s0 False] o b by simp
      have "consume loads dumps hs (c # cs) s = consume loads dumps hs cs s1"
        using q o b True by simp
      then show ?thesis using r t Cons.IH[OF ns(2) r(3)] delta_texts_Cons[of c cs] by simp
    qed
  qed
qed

section \<open>The streaming loop, pass by pass\<close>

lemma stream_body_frame:
  "requests (fst (stream_body loads dumps client hs msg s)) =
     requests s @ [conversation_history s @ [user_turn (Plain msg)]]
   \<and> filter is_done (events (fst (stream_body loads dumps client hs msg s))) =
       filter is_done (events s)"
proof -
  obtain cs failure where c: "client (conversation_history s @ [user_turn (Plain msg)]) = (cs, failure)"
    by (cases "client (conversation_history s @ [user_turn (Plain msg)])")
  obtain s1 r where d: "consume loads dumps hs cs (stream_start msg s) = (s1, r)"
    by (cases "consume loads dumps hs cs (stream_start msg s)")
  have "requests s1 = requests s @ [conversation_history s @ [user_turn (Plain msg)]]"
      "filter is_done (events s1) = filter is_done (events s)"
    using consume_frame[of loads dumps hs cs "stream_start msg s"] d by simp_all
  then show ?thesis
    using stream_body_eq[where client = client and s = s and msg = msg, OF c d]
    by (auto split: option.splits)
qed

lemma stream_body_failed:
  assumes "client (conversation_history s @ [user_turn (Plain msg)]) = (cs, Some e)"
    and "MessageStop \<notin> set cs"
  shows "(\<exists>e'. snd (stream_body loads dumps client hs msg s) = Raised e')
     \<and> conversation_history (fst (stream_body loads dumps client hs msg s)) =
         conversation_history s @ [user_turn (Plain msg)]
     \<and> (contained hs \<longrightarrow>
          snd (stream_body loads dumps client hs msg s) = Raised e
          \<and> text_events (events (fst (stream_body loads dumps client hs msg s))) =
              text_events (events s) @ delta_texts cs)"
proof -
  obtain s1 r where d: "consume loads dumps hs cs (stream_start msg s) = (s1, r)"
    by (cases "consume loads dumps hs cs (stream_start msg s)")
  have n: "r \<noteq> Returned True"
      "conversation_history s1 = conversation_history s @ [user_turn (Plain msg)]"
      "r = Returned False \<longrightarrow> text_events (events s1) = text_events (events s) @ delta_texts cs"
    using consume_no_stop[OF assms(2), of "stream_start msg s" loads dumps hs] d by simp_all
  have b: "stream_body loads dumps client hs msg s =
      (s1, if r = Returned False then Raised e else r)"
    using stream_body_eq[where client = client and s = s and msg = msg, OF assms(1) d]
    by simp
  have c: "contained hs \<longrightarrow> r = Returned False"
  proof
    assume cont: "contained hs"
    show "r = Returned False"
    proof (cases r)
      case (Raised e')
      then show ?thesis
        using consume_contained[OF cont, of loads dumps cs "stream_start msg s" e'] d by simp
    next
      case (Returned f)
      then show ?thesis using n(1) by (cases f) simp_all
    qed
  qed
  have x: "\<exists>e'. (if r = Returned False then Raised e else r) = Raised e'"
  proof (cases r)
    case (Raised e')
    then show ?thesis by simp
  next
    case (Returned f)
    then show ?thesis using n(1) by (cases f) simp_all
  qed
  show ?thesis using b c n x by simp
qed

lemma stream_iterations_done_events:
  "filter is_done (events (fst (stream_iterations loads dumps client hs message its s))) =
     filter is_done (events s)"
proof (induction its arbitrary: s)
  case Nil
  then show ?case by simp
next
  case (Cons i its)
  let ?m = "if i = 0 then message else []"
  obtain s1 r where b: "stream_body loads dumps client hs ?m s = (s1, r)"
    by (cases "stream_body loads dumps client hs ?m s")
  have f: "filter is_done (events s1) = filter is_done (events s)"
    using stream_body_frame[of loads dumps client hs ?m s] b by simp
  show ?case
  proof (cases r)
    case (Raised e)
    then show ?thesis using b f by simp
  next
    case (Returned g)
    then show ?thesis using b f Cons.IH[of s1] by (cases g) simp_all
  qed
qed

section \<open>Failure of the transport\<close>

lemma preload_history_events: "events (preload_history supplied s) = events s"
proof (cases supplied)
  case None
  then show ?thesis by (simp add: preload_history_def)
next
  case (Some h)
  then show ?thesis by (simp add: preload_history_eq)
qed

lemma bedrock_query_stream_outcome:
  "snd (bedrock_query_stream loads dumps client hs message supplied s) =
     snd (run_agentic_loop_stream loads dumps client message hs 10
            ((preload_history supplied s)
               \<lparr>events := events (preload_history supplied s) @ [EvAgentContext]\<rparr>))"
  by (simp add: bedrock_query_stream_def Let_def split: prod.splits result.splits)

text \<open>
  Claim C3 says that a failure of the transport ends the run with a failure
  event and that no exception leaves the loop. On a stream cut after the text
  \<^verbatim>\<open>Based on polic\<close>, \<^verbatim>\<open>query_stream\<close> of the Bedrock wrapper yields the context
  event and the text event and then raises the transport's exception: no
  further event follows.
\<close>

theorem transport_error_escapes:
  "bedrock_query_stream demo_loads demo_dumps cut_client demo_handlers ''What is the wire policy?''
      None new_agent =
     (new_agent\<lparr>conversation_history := [user_turn (Plain ''What is the wire policy?'')],
                requests := [[user_turn (Plain ''What is the wire policy?'')]],
                events := [EvAgentContext, EvText ''Based on polic''],
                accumulated_content := [Text ''Based on polic'']\<rparr>,
      Raised ''connection reset'')"
  by code_simp

text \<open>
  Claim C3, amended. When the stream of a pass raises before its
  \<^verbatim>\<open>message_stop\<close>, the streaming loop ends with an exception: it makes no
  further request and the history ends with the user turn of the pass. The
  exception is the transport's, and the text of every text delta received before
  the failure has been yielded as a text event, when no call of a handler raises
  an exception that is not an \<^verbatim>\<open>Exception\<close> or returns a value that is not a
  dictionary (such a call ends the loop before the stream does). When the client
  raises in a pass of the non-streaming loop, the loop ends with that exception,
  the history unchanged. \<^verbatim>\<open>query_stream\<close> of the Bedrock wrapper ends as the
  loop does.
\<close>

theorem transport_error_propagates:
  "(sclient (conversation_history s @ [user_turn (Plain (if i = 0 then message else []))])
        = (cs, Some e) \<and> MessageStop \<notin> set cs \<longrightarrow>
      (\<exists>e'. snd (stream_iterations loads dumps sclient hs message (i # rest) s) = Raised e')
      \<and> requests (fst (stream_iterations loads dumps sclient hs message (i # rest) s)) =
          requests s @ [conversation_history s @ [user_turn (Plain (if i = 0 then message else []))]]
      \<and> conversation_history (fst (stream_iterations loads dumps sclient hs message (i # rest) s)) =
          conversation_history s @ [user_turn (Plain (if i = 0 then message else []))]
      \<and> (contained hs \<longrightarrow>
           snd (stream_iterations loads dumps sclient hs message (i # rest) s) = Raised e
           \<and> text_events (events (fst (stream_iterations loads dumps sclient hs message (i # rest) s))) =
               text_events (events s) @ delta_texts cs))
   \<and> (client (conversation_history s @ [user_turn (Plain (if i = 0 then message else []))]) = Inl e
      \<longrightarrow> loop_iterations client hs message (i # rest) s =
            (s\<lparr>requests := requests s @
                 [conversation_history s @ [user_turn (Plain (if i = 0 then message else []))]]\<rparr>,
             Raised e))
   \<and> snd (bedrock_query_stream loads dumps sclient hs message supplied s) =
       snd (run_agentic_loop_stream loads dumps sclient message hs 10
              ((preload_history supplied s)
                 \<lparr>events := events (preload_history supplied s) @ [EvAgentContext]\<rparr>))"
proof -
  let ?m = "if i = 0 then message else []"
  let ?q = "conversation_history s @ [user_turn (Plain ?m)]"
  let ?run = "stream_iterations loads dumps sclient hs message (i # rest) s"
  have a: "sclient ?q = (cs, Some e) \<and> MessageStop \<notin> set cs \<longrightarrow>
      (\<exists>e'. snd ?run = Raised e')
      \<and> requests (fst ?run) = requests s @ [?q]
      \<and> conversation_history (fst ?run) = ?q
      \<and> (contained hs \<longrightarrow>
           snd ?run = Raised e
           \<and> text_events (events (fst ?run)) = text_events (events s) @ delta_texts cs)"
  proof
    assume h: "sclient ?q = (cs, Some e) \<and> MessageStop \<notin> set cs"
    obtain s1 r where b: "stream_body loads dumps sclient hs ?m s = (s1, r)"
      by (cases "stream_body loads dumps sclient hs ?m s")
    have f: "\<exists>e'. r = Raised e'" "conversation_history s1 = ?q"
        "contained hs \<longrightarrow> r = Raised e
           \<and> text_events (events s1) = text_events (events s) @ delta_texts cs"
      using stream_body_failed[where client = sclient and s = s and msg = ?m and cs = cs and e = e
              and loads = loads and dumps = dumps and hs = hs] h b
      by simp_all
    then obtain e' where e': "r = Raised e'" by blast
    have g: "requests s1 = requests s @ [?q]"
      using stream_body_frame[of loads dumps sclient hs ?m s] b by simp
    have "?run = (s1, Raised e')"
      using b e' by simp
    then show "(\<exists>e'. snd ?run = Raised e')
      \<and> requests (fst ?run) = requests s @ [?q]
      \<and> conversation_history (fst ?run) = ?q
      \<and> (contained hs \<longrightarrow>
           snd ?run = Raised e
           \<and> text_events (events (fst ?run)) = text_events (events s) @ delta_texts cs)"
      using f g e' by simp
  qed
  have b: "client ?q = Inl e \<longrightarrow> loop_iterations client hs message (i # rest) s =
            (s\<lparr>requests := requests s @ [?q]\<rparr>, Raised e)"
  proof
    assume "client ?q = Inl e"
    from loop_body_raise[where client = client and s = s and msg = ?m, OF this, of hs]
    show "loop_iterations client hs message (i # rest) s =
            (s\<lparr>requests := requests s @ [?q]\<rparr>, Raised e)"
      by simp
  qed
  show ?thesis
    by (intro conjI a b bedrock_query_stream_outcome[of loads dumps sclient hs message supplied s])
qed

theorem transport_error_propagates_witness:
  "cut_client (conversation_history new_agent @ [user_turn (Plain (if (0::nat) = 0 then ''hello'' else []))])
      = (cut_stream, Some ''connection reset'')
   \<and> MessageStop \<notin> set cut_stream
   \<and> contained demo_handlers
   \<and> snd (stream_iterations demo_loads demo_dumps cut_client demo_handlers ''hello'' [0, 1, 2]
            new_agent) = Raised ''connection reset''
   \<and> requests (fst (stream_iterations demo_loads demo_dumps cut_client demo_handlers ''hello''
        [0, 1, 2] new_agent)) = [[user_turn (Plain ''hello'')]]
   \<and> conversation_history (fst (stream_iterations demo_loads demo_dumps cut_client demo_handlers
        ''hello'' [0, 1, 2] new_agent)) = [user_turn (Plain ''hello'')]
   \<and> text_events (events (fst (stream_iterations demo_loads demo_dumps cut_client demo_handlers
        ''hello'' [0, 1, 2] new_agent))) = [''Based on polic'']
   \<and> loop_iterations (\<lambda>m. Inl ''throttled'') demo_handlers ''hello'' [0, 1, 2] new_agent =
       (new_agent\<lparr>requests := [[user_turn (Plain ''hello'')]]\<rparr>, Raised ''throttled'')"
proof -
  have p: "cut_client (conversation_history new_agent
             @ [user_turn (Plain (if (0::nat) = 0 then ''hello'' else []))])
      = (cut_stream, Some ''connection reset'') \<and> MessageStop \<notin> set cut_stream"
    by (simp add: cut_client_def cut_stream_def)
  have cont: "contained demo_handlers" by (rule demo_handlers_contained)
  have q: "(\<lambda>m. Inl ''throttled'' :: string + response)
      (conversation_history new_agent @ [user_turn (Plain (if (0::nat) = 0 then ''hello'' else []))])
      = Inl ''throttled''"
    by simp
  have v: "conversation_history new_agent = []" "requests new_agent = []" "events new_agent = []"
      "delta_texts cut_stream = [''Based on polic'']"
    by (simp_all add: new_agent_def cut_stream_def)
  have a: "snd (stream_iterations demo_loads demo_dumps cut_client demo_handlers ''hello'' (0 # [1, 2])
            new_agent) = Raised ''connection reset''
      \<and> requests (fst (stream_iterations demo_loads demo_dumps cut_client demo_handlers ''hello''
           (0 # [1, 2]) new_agent)) =
          requests new_agent @ [conversation_history new_agent
             @ [user_turn (Plain (if (0::nat) = 0 then ''hello'' else []))]]
      \<and> conversation_history (fst (stream_iterations demo_loads demo_dumps cut_client demo_handlers
           ''hello'' (0 # [1, 2]) new_agent)) =
          conversation_history new_agent
             @ [user_turn (Plain (if (0::nat) = 0 then ''hello'' else []))]
      \<and> text_events (events (fst (stream_iterations demo_loads demo_dumps cut_client demo_handlers
           ''hello'' (0 # [1, 2]) new_agent))) = text_events (events new_agent) @ delta_texts cut_stream"
    using transport_error_propagates
            [where sclient = cut_client and s = new_agent and i = 0 and message = "''hello''"
               and cs = cut_stream and e = "''connection reset''" and loads = demo_loads
               and dumps = demo_dumps and hs = demo_handlers and rest = "[1, 2]"] p cont
    by blast
  have b: "loop_iterations (\<lambda>m. Inl ''throttled'') demo_handlers ''hello'' (0 # [1, 2]) new_agent =
       (new_agent\<lparr>requests := requests new_agent @ [conversation_history new_agent
             @ [user_turn (Plain (if (0::nat) = 0 then ''hello'' else []))]]\<rparr>, Raised ''throttled'')"
    using transport_error_propagates
            [where client = "\<lambda>m. Inl ''throttled''" and s = new_agent and i = 0
               and message = "''hello''" and e = "''throttled''" and hs = demo_handlers
               and rest = "[1, 2]"] q
    by blast
  show ?thesis using p cont a b v by simp
qed

section \<open>A turn without tool use\<close>

lemma loop_body_no_tool:
  assumes "client (conversation_history s @ [user_turn (Plain msg)]) = Inr resp"
    and "tool_use_ids (resp_content resp) = []"
  shows "loop_body client hs msg s =
     (fst (process_blocks hs (resp_content resp) (after_query resp msg s)),
      Returned (stop_reason resp = Some ''end_turn''))
     \<and> conversation_history (fst (loop_body client hs msg s)) =
         conversation_history s @ [user_turn (Plain msg)]
           @ (if resp_content resp \<noteq> [] then [assistant_turn (resp_content resp)] else [])"
proof -
  obtain s2 r where p: "process_blocks hs (resp_content resp) (after_query resp msg s) = (s2, r)"
    by (cases "process_blocks hs (resp_content resp) (after_query resp msg s)")
  have r: "snd (process_blocks hs (resp_content resp) (after_query resp msg s)) = Returned ()"
    by (rule process_blocks_no_tool[OF assms(2)])
  have a: "\<not> has_tool_use s2"
    using process_blocks_returned[OF r] p assms(2) by simp
  have f: "conversation_history s2 =
      conversation_history s @ [user_turn (Plain msg)]
        @ (if resp_content resp \<noteq> [] then [assistant_turn (resp_content resp)] else [])"
    using process_blocks_frame[of hs "resp_content resp" "after_query resp msg s"] p by simp
  show ?thesis
    using loop_body_return[where client = client and s = s and msg = msg, OF assms(1) p] r p a f
    by simp
qed

text \<open>
  A pass of the non-streaming loop on a turn without tool-use blocks ends the
  loop when the stop reason is \<^verbatim>\<open>end_turn\<close>, and with any other stop reason
  is followed by a request that sends the history with an empty user message.
\<close>

lemma loop_goes_on_without_end_turn:
  assumes "client (conversation_history s @ [user_turn (Plain (if i = 0 then message else []))])
             = Inr resp"
    and "tool_use_ids (resp_content resp) = []"
  shows "stop_reason resp = Some ''end_turn'' \<longrightarrow>
           snd (loop_iterations client hs message (i # rest) s) = Returned ()
           \<and> requests (fst (loop_iterations client hs message (i # rest) s)) =
               requests s @ [conversation_history s
                  @ [user_turn (Plain (if i = 0 then message else []))]]"
    and "stop_reason resp \<noteq> Some ''end_turn'' \<longrightarrow>
           loop_iterations client hs message (i # j # rest) s =
             loop_iterations client hs message (j # rest)
               (fst (loop_body client hs (if i = 0 then message else []) s))
           \<and> requests (fst (loop_body client hs (if i = 0 then message else []) s)) =
               requests s @ [conversation_history s
                  @ [user_turn (Plain (if i = 0 then message else []))]]"
proof -
  let ?m = "if i = 0 then message else []"
  obtain s1 where b: "loop_body client hs ?m s = (s1, Returned (stop_reason resp = Some ''end_turn''))"
    using loop_body_no_tool[where client = client and s = s and msg = ?m and hs = hs,
            OF assms(1) assms(2)] by simp
  have rq: "requests s1 = requests s @ [conversation_history s @ [user_turn (Plain ?m)]]"
    using loop_body_requests[of client hs ?m s] b by simp
  show "stop_reason resp = Some ''end_turn'' \<longrightarrow>
           snd (loop_iterations client hs message (i # rest) s) = Returned ()
           \<and> requests (fst (loop_iterations client hs message (i # rest) s)) =
               requests s @ [conversation_history s @ [user_turn (Plain ?m)]]"
    using b rq by simp
  show "stop_reason resp \<noteq> Some ''end_turn'' \<longrightarrow>
           loop_iterations client hs message (i # j # rest) s =
             loop_iterations client hs message (j # rest) (fst (loop_body client hs ?m s))
           \<and> requests (fst (loop_body client hs ?m s)) =
               requests s @ [conversation_history s @ [user_turn (Plain ?m)]]"
    using b rq by simp
qed

text \<open>
  Claim C4 says that a turn without tool use ends the loop whatever its stop
  reason, and no further request is made. The response \<open>truncated_response\<close>
  has no tool-use block and the stop reason \<^verbatim>\<open>max_tokens\<close>: the
  non-streaming loop, allowed three iterations, makes three requests, the second
  and the third with an empty user message after the truncated answer, and
  returns the text three times. The streaming loop on the same turn makes one
  request and yields the text once. On a stream that ends without
  \<^verbatim>\<open>message_stop\<close> the streaming loop too makes three requests.
\<close>

theorem truncated_turn_is_repeated:
  "tool_use_ids (resp_content truncated_response) = []
   \<and> stop_reason truncated_response = Some ''max_tokens''
   \<and> requests (fst (run_agentic_loop (\<lambda>m. Inr truncated_response) ''hi'' demo_handlers 3
        new_agent)) =
       [[user_turn (Plain ''hi'')],
        [user_turn (Plain ''hi''), assistant_turn [Text ''The policy sa''], user_turn (Plain [])],
        [user_turn (Plain ''hi''), assistant_turn [Text ''The policy sa''], user_turn (Plain []),
         assistant_turn [Text ''The policy sa''], user_turn (Plain [])]]
   \<and> snd (run_agentic_loop (\<lambda>m. Inr truncated_response) ''hi'' demo_handlers 3 new_agent) =
        Returned (''The policy saThe policy saThe policy sa'', [])
   \<and> requests (fst (run_agentic_loop_stream demo_loads demo_dumps
        (\<lambda>m. (stream_of truncated_turn, None)) ''hi'' demo_handlers 3 new_agent)) =
       [[user_turn (Plain ''hi'')]]
   \<and> text_events (events (fst (run_agentic_loop_stream demo_loads demo_dumps
        (\<lambda>m. (stream_of truncated_turn, None)) ''hi'' demo_handlers 3 new_agent))) =
       [''The policy sa'']
   \<and> snd (run_agentic_loop_stream demo_loads demo_dumps
        (\<lambda>m. (stream_of truncated_turn, None)) ''hi'' demo_handlers 3 new_agent) = Returned ()
   \<and> length (requests (fst (run_agentic_loop_stream demo_loads demo_dumps
        (\<lambda>m. (unfinished_stream, None)) ''hi'' demo_handlers 3 new_agent))) = 3"
  by code_simp

section \<open>The done event\<close>

lemma stream_user_blocks_frame:
  "sdk_tool_calls (stream_user_blocks loads bs s) = sdk_tool_calls s
   \<and> filter is_done (sdk_events (stream_user_blocks loads bs s)) = filter is_done (sdk_events s)"
  by (induction loads bs s rule: stream_user_blocks.induct) simp_all

lemma stream_assistant_blocks_calls:
  "sdk_tool_calls (stream_assistant_blocks bs s) = sdk_tool_calls s @ block_tool_calls bs
   \<and> filter is_done (sdk_events (stream_assistant_blocks bs s)) = filter is_done (sdk_events s)"
  by (induction bs s rule: stream_assistant_blocks.induct) simp_all

lemma stream_messages_calls:
  "sdk_tool_calls (stream_messages loads msgs s) = sdk_tool_calls s @ message_tool_calls msgs
   \<and> filter is_done (sdk_events (stream_messages loads msgs s)) = filter is_done (sdk_events s)"
  by (induction loads msgs s rule: stream_messages.induct)
     (simp_all add: stream_user_blocks_frame stream_assistant_blocks_calls)

lemma bedrock_query_stream_eq:
  "bedrock_query_stream loads dumps client hs message supplied s =
     (let p = run_agentic_loop_stream loads dumps client message hs 10
                ((preload_history supplied s)
                   \<lparr>events := events (preload_history supplied s) @ [EvAgentContext]\<rparr>)
      in case snd p of
           Raised e \<Rightarrow> (fst p, Raised e)
         | Returned u \<Rightarrow> ((fst p)\<lparr>events := events (fst p) @ [EvDone []]\<rparr>, Returned ()))"
  by (simp add: bedrock_query_stream_def Let_def split: prod.splits result.splits)

text \<open>
  Claim C7 says that every streaming run has exactly one done event. When the
  first request is refused, \<^verbatim>\<open>query_stream\<close> of the Bedrock wrapper yields the
  context event and raises: the run has no done event.
\<close>

theorem no_done_event_after_failure:
  "events (fst (bedrock_query_stream demo_loads demo_dumps refused_client demo_handlers ''hi'' None
      new_agent)) = [EvAgentContext]
   \<and> snd (bedrock_query_stream demo_loads demo_dumps refused_client demo_handlers ''hi'' None
      new_agent) = Raised ''throttled''"
  by code_simp

text \<open>
  The done event of the Bedrock wrapper is built with the constant
  \<^verbatim>\<open>"tool_calls": []\<close>: here a tool was dispatched, and the done event names
  none.
\<close>

lemma bedrock_done_event_names_no_tool_call:
  "events (fst (bedrock_query_stream demo_loads demo_dumps two_turn_client demo_handlers ''find Bob''
      None new_agent)) =
     [EvAgentContext, EvText ''Let me '', EvText ''look.'', EvToolUse ''search_customer'' (JObj []),
      EvToolResult ''search_customer''
        (ResultDict \<lparr>tr_content = Some [TextItem ''1 customer''], tr_is_error = None\<rparr>),
      EvText ''All '', EvText ''clear.'', EvDone []]
   \<and> dispatched (fst (bedrock_query_stream demo_loads demo_dumps two_turn_client demo_handlers
      ''find Bob'' None new_agent)) = [(''search_customer'', JObj [])]"
  by code_simp

text \<open>
  Claim C7, amended. A streaming run that ends without an exception yields
  exactly one done event, and it is the last event: in the Bedrock wrapper, and
  in the SDK wrapper, where it carries the tool calls of the run, in order. A run
  in which the transport raises ends with the exception and yields no done
  event.
\<close>

theorem done_event_is_last:
  "(snd (bedrock_query_stream loads dumps client hs message supplied (s\<lparr>events := []\<rparr>)) = Returned ()
      \<longrightarrow> (\<exists>evs calls.
             events (fst (bedrock_query_stream loads dumps client hs message supplied
                            (s\<lparr>events := []\<rparr>))) = evs @ [EvDone calls]
             \<and> filter is_done evs = []))
   \<and> (\<forall>e. snd (bedrock_query_stream loads dumps client hs message supplied (s\<lparr>events := []\<rparr>))
            = Raised e
      \<longrightarrow> filter is_done
            (events (fst (bedrock_query_stream loads dumps client hs message supplied
                            (s\<lparr>events := []\<rparr>)))) = [])
   \<and> (\<forall>msgs. sdk (full_message upper message supplied) = (msgs, None)
      \<longrightarrow> (\<exists>evs. sdk_query_stream loads upper (Some sdk) message supplied =
                    (evs @ [EvDone (message_tool_calls msgs)], Returned ())
                 \<and> filter is_done evs = []))
   \<and> (\<forall>msgs e. sdk (full_message upper message supplied) = (msgs, Some e)
      \<longrightarrow> snd (sdk_query_stream loads upper (Some sdk) message supplied) = Raised e
          \<and> filter is_done (fst (sdk_query_stream loads upper (Some sdk) message supplied)) = [])"
proof -
  let ?s0 = "s\<lparr>events := []\<rparr>"
  let ?s1 = "(preload_history supplied ?s0)
               \<lparr>events := events (preload_history supplied ?s0) @ [EvAgentContext]\<rparr>"
  let ?p = "run_agentic_loop_stream loads dumps client message hs 10 ?s1"
  let ?b = "bedrock_query_stream loads dumps client hs message supplied ?s0"
  have nd: "filter is_done (events (fst ?p)) = []"
    using stream_iterations_done_events[of loads dumps client hs message "[0..<nat 10]" ?s1]
    by (simp add: run_agentic_loop_stream_def preload_history_events)
  have a: "snd ?b = Returned () \<longrightarrow>
      (\<exists>evs calls. events (fst ?b) = evs @ [EvDone calls] \<and> filter is_done evs = [])"
  proof
    assume "snd ?b = Returned ()"
    then have "\<exists>u. snd ?p = Returned u"
      by (cases "snd ?p") (simp_all add: bedrock_query_stream_eq Let_def)
    then have "events (fst ?b) = events (fst ?p) @ [EvDone []]"
      by (auto simp: bedrock_query_stream_eq Let_def)
    then show "\<exists>evs calls. events (fst ?b) = evs @ [EvDone calls] \<and> filter is_done evs = []"
      using nd by blast
  qed
  have b: "\<forall>e. snd ?b = Raised e \<longrightarrow> filter is_done (events (fst ?b)) = []"
  proof (intro allI impI)
    fix e assume "snd ?b = Raised e"
    then have "fst ?b = fst ?p"
      by (cases "snd ?p") (simp_all add: bedrock_query_stream_eq Let_def)
    then show "filter is_done (events (fst ?b)) = []" using nd by simp
  qed
  let ?init = "\<lparr>sdk_events = [EvAgentContext], sdk_response_text = [], sdk_tool_calls = [],
                 tool_id_to_name = Map.empty\<rparr>"
  have c: "\<forall>msgs. sdk (full_message upper message supplied) = (msgs, None)
      \<longrightarrow> (\<exists>evs. sdk_query_stream loads upper (Some sdk) message supplied =
                    (evs @ [EvDone (message_tool_calls msgs)], Returned ())
                 \<and> filter is_done evs = [])"
  proof (intro allI impI)
    fix msgs assume h: "sdk (full_message upper message supplied) = (msgs, None)"
    have "sdk_query_stream loads upper (Some sdk) message supplied =
        (sdk_events (stream_messages loads msgs ?init)
           @ [EvDone (sdk_tool_calls (stream_messages loads msgs ?init))], Returned ())"
      using h by (simp add: sdk_query_stream_def Let_def)
    moreover have "sdk_tool_calls (stream_messages loads msgs ?init) = message_tool_calls msgs"
        "filter is_done (sdk_events (stream_messages loads msgs ?init)) = []"
      using stream_messages_calls[of loads msgs ?init] by simp_all
    ultimately show "\<exists>evs. sdk_query_stream loads upper (Some sdk) message supplied =
                    (evs @ [EvDone (message_tool_calls msgs)], Returned ())
                 \<and> filter is_done evs = []"
      by simp
  qed
  have d: "\<forall>msgs e. sdk (full_message upper message supplied) = (msgs, Some e)
      \<longrightarrow> snd (sdk_query_stream loads upper (Some sdk) message supplied) = Raised e
          \<and> filter is_done (fst (sdk_query_stream loads upper (Some sdk) message supplied)) = []"
  proof (intro allI impI)
    fix msgs e assume h: "sdk (full_message upper message supplied) = (msgs, Some e)"
    have "sdk_query_stream loads upper (Some sdk) message supplied =
        (sdk_events (stream_messages loads msgs ?init), Raised e)"
      using h by (simp add: sdk_query_stream_def Let_def)
    moreover have "filter is_done (sdk_events (stream_messages loads msgs ?init)) = []"
      using stream_messages_calls[of loads msgs ?init] by simp
    ultimately show "snd (sdk_query_stream loads upper (Some sdk) message supplied) = Raised e
          \<and> filter is_done (fst (sdk_query_stream loads upper (Some sdk) message supplied)) = []"
      by simp
  qed
  show ?thesis by (intro conjI a b c d)
qed

theorem done_event_is_last_witness:
  "snd (bedrock_query_stream demo_loads demo_dumps two_turn_client demo_handlers ''find Bob'' None
          (new_agent\<lparr>events := []\<rparr>)) = Returned ()
   \<and> (\<exists>evs calls.
         events (fst (bedrock_query_stream demo_loads demo_dumps two_turn_client demo_handlers
                        ''find Bob'' None (new_agent\<lparr>events := []\<rparr>))) = evs @ [EvDone calls]
         \<and> filter is_done evs = [])
   \<and> snd (bedrock_query_stream demo_loads demo_dumps refused_client demo_handlers ''hi'' None
          (new_agent\<lparr>events := []\<rparr>)) = Raised ''throttled''
   \<and> filter is_done
        (events (fst (bedrock_query_stream demo_loads demo_dumps refused_client demo_handlers ''hi''
                        None (new_agent\<lparr>events := []\<rparr>)))) = []
   \<and> (\<exists>evs. sdk_query_stream demo_loads (\<lambda>r. r) (Some demo_sdk) ''hi'' None =
               (evs @ [EvDone [(''get_policy'', JObj [])]], Returned ())
            \<and> filter is_done evs = [])
   \<and> snd (sdk_query_stream demo_loads (\<lambda>r. r) (Some failing_sdk) ''hi'' None) =
        Raised ''process exited''
   \<and> filter is_done (fst (sdk_query_stream demo_loads (\<lambda>r. r) (Some failing_sdk) ''hi'' None)) = []"
proof -
  note t1 = done_event_is_last
    [where loads = demo_loads and dumps = demo_dumps and client = two_turn_client
       and hs = demo_handlers and message = "''find Bob''" and supplied = None and s = new_agent]
  note t2 = done_event_is_last
    [where loads = demo_loads and dumps = demo_dumps and client = refused_client
       and hs = demo_handlers and message = "''hi''" and supplied = None and s = new_agent]
  note t3 = done_event_is_last
    [where loads = demo_loads and upper = "\<lambda>r. r" and sdk = demo_sdk and message = "''hi''"
       and supplied = None]
  note t4 = done_event_is_last
    [where loads = demo_loads and upper = "\<lambda>r. r" and sdk = failing_sdk and message = "''hi''"
       and supplied = None]
  have p1: "snd (bedrock_query_stream demo_loads demo_dumps two_turn_client demo_handlers
      ''find Bob'' None (new_agent\<lparr>events := []\<rparr>)) = Returned ()"
    by code_simp
  have a: "\<exists>evs calls.
         events (fst (bedrock_query_stream demo_loads demo_dumps two_turn_client demo_handlers
                        ''find Bob'' None (new_agent\<lparr>events := []\<rparr>))) = evs @ [EvDone calls]
         \<and> filter is_done evs = []"
    using t1 p1 by blast
  have p2: "snd (bedrock_query_stream demo_loads demo_dumps refused_client demo_handlers ''hi'' None
          (new_agent\<lparr>events := []\<rparr>)) = Raised ''throttled''"
    by code_simp
  have b: "filter is_done
        (events (fst (bedrock_query_stream demo_loads demo_dumps refused_client demo_handlers ''hi''
                        None (new_agent\<lparr>events := []\<rparr>)))) = []"
    using t2 p2 by blast
  have p3: "demo_sdk (full_message (\<lambda>r. r) ''hi'' None) =
      ([AssistantMessage [TextBlock ''Looking.'', ToolUseBlock ''toolu_04'' ''get_policy'' (JObj [])],
        UserMessage [ToolResultBlock ''toolu_04'' (ContentStr ''ok'')],
        AssistantMessage [TextBlock ''Done.'']], None)"
    by (simp add: demo_sdk_def)
  have c: "\<exists>evs. sdk_query_stream demo_loads (\<lambda>r. r) (Some demo_sdk) ''hi'' None =
               (evs @ [EvDone (message_tool_calls
                  [AssistantMessage [TextBlock ''Looking.'',
                                     ToolUseBlock ''toolu_04'' ''get_policy'' (JObj [])],
                   UserMessage [ToolResultBlock ''toolu_04'' (ContentStr ''ok'')],
                   AssistantMessage [TextBlock ''Done.'']])], Returned ())
            \<and> filter is_done evs = []"
    using t3 p3 by blast
  have p4: "failing_sdk (full_message (\<lambda>r. r) ''hi'' None) =
      ([AssistantMessage [TextBlock ''Look'']], Some ''process exited'')"
    by (simp add: failing_sdk_def)
  have d: "snd (sdk_query_stream demo_loads (\<lambda>r. r) (Some failing_sdk) ''hi'' None) =
        Raised ''process exited''
      \<and> filter is_done (fst (sdk_query_stream demo_loads (\<lambda>r. r) (Some failing_sdk) ''hi'' None)) = []"
    using t4 p4 by blast
  show ?thesis using p1 a p2 b c d by simp
qed

section \<open>The supplied history\<close>

lemma preload_last_six: "preload_history (Some (last_six h)) s = preload_history (Some h) s"
  by (simp add: preload_history_eq last_six_idem)

lemma full_message_last_six:
  "full_message upper message (Some (last_six h)) = full_message upper message (Some h)"
  by (simp add: full_message_def last_six_idem last_six_empty)

lemma loop_iterations_first:
  "\<exists>new. requests (fst (loop_iterations client hs message (j # rest) s)) =
     requests s @ [conversation_history s @ [user_turn (Plain (if j = 0 then message else []))]]
       @ new"
proof -
  let ?m = "if j = 0 then message else []"
  obtain s1 r where b: "loop_body client hs ?m s = (s1, r)"
    by (cases "loop_body client hs ?m s")
  have rq: "requests s1 = requests s @ [conversation_history s @ [user_turn (Plain ?m)]]"
    using loop_body_requests[of client hs ?m s] b by simp
  show ?thesis
  proof (cases "r = Returned False")
    case True
    obtain new where n: "requests (fst (loop_iterations client hs message rest s1)) = requests s1 @ new"
      using loop_iterations_trace[of client hs message rest s1] by blast
    have "loop_iterations client hs message (j # rest) s = loop_iterations client hs message rest s1"
      using b True by simp
    then show ?thesis using n rq by (intro exI[of _ new]) simp
  next
    case False
    then have "fst (loop_iterations client hs message (j # rest) s) = s1"
      using b by (cases r) (auto split: bool.splits)
    then show ?thesis using rq by (intro exI[of _ "[]"]) simp
  qed
qed

lemma stream_iterations_trace:
  "\<exists>new. requests (fst (stream_iterations loads dumps client hs message its s)) = requests s @ new
     \<and> length new \<le> length its"
proof (induction its arbitrary: s)
  case Nil
  then show ?case by simp
next
  case (Cons i its)
  let ?m = "if i = 0 then message else []"
  let ?q = "conversation_history s @ [user_turn (Plain ?m)]"
  obtain s1 r where b: "stream_body loads dumps client hs ?m s = (s1, r)"
    by (cases "stream_body loads dumps client hs ?m s")
  have rq: "requests s1 = requests s @ [?q]"
    using stream_body_frame[of loads dumps client hs ?m s] b by simp
  show ?case
  proof (cases "r = Returned False")
    case True
    from Cons.IH[of s1] obtain new where
      n: "requests (fst (stream_iterations loads dumps client hs message its s1)) = requests s1 @ new"
         "length new \<le> length its"
      by blast
    have "stream_iterations loads dumps client hs message (i # its) s =
        stream_iterations loads dumps client hs message its s1"
      using b True by simp
    then show ?thesis using n rq by (intro exI[of _ "?q # new"]) simp
  next
    case False
    then have "fst (stream_iterations loads dumps client hs message (i # its) s) = s1"
      using b by (cases r) (auto split: bool.splits)
    then show ?thesis using rq by (intro exI[of _ "[?q]"]) simp
  qed
qed

lemma stream_iterations_first:
  "\<exists>new. requests (fst (stream_iterations loads dumps client hs message (j # rest) s)) =
     requests s @ [conversation_history s @ [user_turn (Plain (if j = 0 then message else []))]]
       @ new"
proof -
  let ?m = "if j = 0 then message else []"
  obtain s1 r where b: "stream_body loads dumps client hs ?m s = (s1, r)"
    by (cases "stream_body loads dumps client hs ?m s")
  have rq: "requests s1 = requests s @ [conversation_history s @ [user_turn (Plain ?m)]]"
    using stream_body_frame[of loads dumps client hs ?m s] b by simp
  show ?thesis
  proof (cases "r = Returned False")
    case True
    obtain new where
      n: "requests (fst (stream_iterations loads dumps client hs message rest s1)) = requests s1 @ new"
      using stream_iterations_trace[of loads dumps client hs message rest s1] by blast
    have "stream_iterations loads dumps client hs message (j # rest) s =
        stream_iterations loads dumps client hs message rest s1"
      using b True by simp
    then show ?thesis using n rq by (intro exI[of _ new]) simp
  next
    case False
    then have "fst (stream_iterations loads dumps client hs message (j # rest) s) = s1"
      using b by (cases r) (auto split: bool.splits)
    then show ?thesis using rq by (intro exI[of _ "[]"]) simp
  qed
qed

lemma bedrock_query_first:
  "\<exists>new. requests (fst (bedrock_query client hs message (Some h) s)) =
     requests s @ [conversation_history s @ map as_message (last_six h)
                     @ [user_turn (Plain message)]] @ new"
proof -
  let ?s1 = "(preload_history (Some h) s)\<lparr>response_text := [], tool_calls := []\<rparr>"
  have its: "[0..<nat 10] = 0 # [1..<10]" by (simp add: upt_conv_Cons)
  have f: "fst (bedrock_query client hs message (Some h) s) =
      fst (loop_iterations client hs message (0 # [1..<10]) ?s1)"
    unfolding its[symmetric]
    by (simp add: bedrock_query_def run_agentic_loop_eq Let_def split: prod.splits result.splits)
  have h: "conversation_history ?s1 = conversation_history s @ map as_message (last_six h)"
      "requests ?s1 = requests s"
    by (simp_all add: preload_history_eq)
  show ?thesis
    using loop_iterations_first[of client hs message 0 "[1..<10]" ?s1] f h by simp
qed

lemma bedrock_query_stream_first:
  "\<exists>new. requests (fst (bedrock_query_stream loads dumps client hs message (Some h) s)) =
     requests s @ [conversation_history s @ map as_message (last_six h)
                     @ [user_turn (Plain message)]] @ new"
proof -
  let ?s1 = "(preload_history (Some h) s)
               \<lparr>events := events (preload_history (Some h) s) @ [EvAgentContext]\<rparr>"
  let ?p = "stream_iterations loads dumps client hs message (0 # [1..<10]) ?s1"
  have its: "[0..<nat 10] = 0 # [1..<10]" by (simp add: upt_conv_Cons)
  have f: "requests (fst (bedrock_query_stream loads dumps client hs message (Some h) s)) =
      requests (fst ?p)"
    unfolding its[symmetric]
    by (cases "snd (stream_iterations loads dumps client hs message [0..<nat 10] ?s1)")
       (simp_all add: bedrock_query_stream_eq run_agentic_loop_stream_def Let_def)
  have h: "conversation_history ?s1 = conversation_history s @ map as_message (last_six h)"
      "requests ?s1 = requests s"
    by (simp_all add: preload_history_eq)
  show ?thesis
    using stream_iterations_first[of loads dumps client hs message 0 "[1..<10]" ?s1] f h by simp
qed

text \<open>
  Claim C9. Of a supplied history only the last six messages count. The slice
  \<^verbatim>\<open>conversation_history[-6:]\<close> has at most six entries and is the end of the
  history. The message the SDK agent builds for a history that is not empty is
  the header, one line \<^verbatim>\<open>ROLE: content\<close> for each message of the slice and
  for no other, the current message and the closing sentence; that message is
  what \<^verbatim>\<open>query\<close> and \<^verbatim>\<open>query_stream\<close> of \<^verbatim>\<open>agent.py\<close> send to the SDK client
  (a client that answers with its prompt gives it back, and any client is called
  on it only), so both do the same for a history and for its last six messages.
  The Bedrock wrapper appends exactly the messages of the slice to the agent's
  history, the first request of its \<^verbatim>\<open>query\<close> and of its \<^verbatim>\<open>query_stream\<close> is
  the agent's history, the slice and the user turn, and both do the same for a
  history and for its last six messages.
\<close>

theorem only_last_six_messages:
  "length (last_six h) = min 6 (length h)
   \<and> h = take (length h - 6) h @ last_six h
   \<and> full_message upper message (Some h) =
       (if h = [] then message
        else ''Previous conversation:'' @ [newline]
             @ str_join [newline]
                 (map (\<lambda>msg. upper (cm_role msg) @ '': '' @ cm_content msg) (last_six h))
             @ [newline, newline]
             @ ''Current message from USER: '' @ message
             @ [newline, newline]
             @ ''Please respond to the current message, taking the conversation history into account.'')
   \<and> sdk_query upper (Some echo_sdk) message (Some h) =
       Returned (full_message upper message (Some h), [], [])
   \<and> sdk_query_stream loads upper (Some echo_sdk) message (Some h) =
       ([EvAgentContext, EvText (full_message upper message (Some h)), EvDone []], Returned ())
   \<and> sdk_query upper (Some sdk) message (Some h) =
       sdk_query upper (Some (\<lambda>prompt. sdk (full_message upper message (Some h)))) message (Some h)
   \<and> sdk_query_stream loads upper (Some sdk) message (Some h) =
       sdk_query_stream loads upper (Some (\<lambda>prompt. sdk (full_message upper message (Some h))))
         message (Some h)
   \<and> full_message upper message (Some h) = full_message upper message (Some (last_six h))
   \<and> sdk_query upper (Some sdk) message (Some h) =
       sdk_query upper (Some sdk) message (Some (last_six h))
   \<and> sdk_query_stream loads upper (Some sdk) message (Some h) =
       sdk_query_stream loads upper (Some sdk) message (Some (last_six h))
   \<and> conversation_history (preload_history (Some h) s) =
       conversation_history s @ map as_message (last_six h)
   \<and> (\<exists>new. requests (fst (bedrock_query client hs message (Some h) s)) =
         requests s @ [conversation_history s @ map as_message (last_six h)
                         @ [user_turn (Plain message)]] @ new)
   \<and> (\<exists>new. requests (fst (bedrock_query_stream loads dumps sclient hs message (Some h) s)) =
         requests s @ [conversation_history s @ map as_message (last_six h)
                         @ [user_turn (Plain message)]] @ new)
   \<and> bedrock_query client hs message (Some h) s =
       bedrock_query client hs message (Some (last_six h)) s
   \<and> bedrock_query_stream loads dumps sclient hs message (Some h) s =
       bedrock_query_stream loads dumps sclient hs message (Some (last_six h)) s"
proof -
  have a: "length (last_six h) = min 6 (length h)" by (simp add: last_six_def)
  have b: "h = take (length h - 6) h @ last_six h" by (simp add: last_six_def)
  have p: "full_message upper message (Some h) =
       (if h = [] then message
        else ''Previous conversation:'' @ [newline]
             @ str_join [newline]
                 (map (\<lambda>msg. upper (cm_role msg) @ '': '' @ cm_content msg) (last_six h))
             @ [newline, newline]
             @ ''Current message from USER: '' @ message
             @ [newline, newline]
             @ ''Please respond to the current message, taking the conversation history into account.'')"
    by (simp add: full_message_def)
  have e1: "sdk_query upper (Some echo_sdk) message (Some h) =
       Returned (full_message upper message (Some h), [], [])"
    by (simp add: sdk_query_def echo_sdk_def Let_def)
  have e2: "sdk_query_stream loads upper (Some echo_sdk) message (Some h) =
       ([EvAgentContext, EvText (full_message upper message (Some h)), EvDone []], Returned ())"
    by (simp add: sdk_query_stream_def echo_sdk_def Let_def)
  have o1: "sdk_query upper (Some sdk) message (Some h) =
       sdk_query upper (Some (\<lambda>prompt. sdk (full_message upper message (Some h)))) message (Some h)"
    by (simp add: sdk_query_def)
  have o2: "sdk_query_stream loads upper (Some sdk) message (Some h) =
       sdk_query_stream loads upper (Some (\<lambda>prompt. sdk (full_message upper message (Some h))))
         message (Some h)"
    by (simp add: sdk_query_stream_def)
  have m: "full_message upper message (Some h) = full_message upper message (Some (last_six h))"
    by (simp add: full_message_last_six)
  have c: "sdk_query upper (Some sdk) message (Some h) =
       sdk_query upper (Some sdk) message (Some (last_six h))"
    unfolding sdk_query_def full_message_last_six by (rule refl)
  have d: "sdk_query_stream loads upper (Some sdk) message (Some h) =
       sdk_query_stream loads upper (Some sdk) message (Some (last_six h))"
    unfolding sdk_query_stream_def full_message_last_six by (rule refl)
  have e: "conversation_history (preload_history (Some h) s) =
       conversation_history s @ map as_message (last_six h)"
    by (simp add: preload_history_eq)
  have f: "bedrock_query client hs message (Some h) s =
       bedrock_query client hs message (Some (last_six h)) s"
    by (simp add: bedrock_query_def preload_last_six)
  have g: "bedrock_query_stream loads dumps sclient hs message (Some h) s =
       bedrock_query_stream loads dumps sclient hs message (Some (last_six h)) s"
    by (simp add: bedrock_query_stream_def preload_last_six)
  show ?thesis
    by (intro conjI a b p e1 e2 o1 o2 m c d e bedrock_query_first bedrock_query_stream_first f g)
qed

theorem only_last_six_messages_witness:
  "length long_history = 8
   \<and> last_six long_history =
       [\<lparr>cm_role = ''user'', cm_content = ''three''\<rparr>, \<lparr>cm_role = ''assistant'', cm_content = ''four''\<rparr>,
        \<lparr>cm_role = ''user'', cm_content = ''five''\<rparr>, \<lparr>cm_role = ''assistant'', cm_content = ''six''\<rparr>,
        \<lparr>cm_role = ''user'', cm_content = ''seven''\<rparr>, \<lparr>cm_role = ''assistant'', cm_content = ''eight''\<rparr>]
   \<and> sdk_query demo_upper (Some echo_sdk) ''And now?'' (Some long_history) =
       Returned (''Previous conversation:'' @ [newline]
                 @ ''USER: three'' @ [newline] @ ''ASSISTANT: four'' @ [newline]
                 @ ''USER: five'' @ [newline] @ ''ASSISTANT: six'' @ [newline]
                 @ ''USER: seven'' @ [newline] @ ''ASSISTANT: eight'' @ [newline, newline]
                 @ ''Current message from USER: And now?'' @ [newline, newline]
                 @ ''Please respond to the current message, taking the conversation history into account.'',
                 [], [])
   \<and> conversation_history (preload_history (Some long_history) new_agent) =
       [\<lparr>role = ''user'', content = Plain ''three''\<rparr>, \<lparr>role = ''assistant'', content = Plain ''four''\<rparr>,
        \<lparr>role = ''user'', content = Plain ''five''\<rparr>, \<lparr>role = ''assistant'', content = Plain ''six''\<rparr>,
        \<lparr>role = ''user'', content = Plain ''seven''\<rparr>, \<lparr>role = ''assistant'', content = Plain ''eight''\<rparr>]"
proof -
  note t = only_last_six_messages
    [where h = long_history and upper = demo_upper and message = "''And now?''" and s = new_agent]
  have l: "length long_history = 8" by (simp add: long_history_def)
  have s: "last_six long_history =
       [\<lparr>cm_role = ''user'', cm_content = ''three''\<rparr>, \<lparr>cm_role = ''assistant'', cm_content = ''four''\<rparr>,
        \<lparr>cm_role = ''user'', cm_content = ''five''\<rparr>, \<lparr>cm_role = ''assistant'', cm_content = ''six''\<rparr>,
        \<lparr>cm_role = ''user'', cm_content = ''seven''\<rparr>, \<lparr>cm_role = ''assistant'', cm_content = ''eight''\<rparr>]"
    by (simp add: last_six_def long_history_def)
  have ne: "long_history \<noteq> []" by (simp add: long_history_def)
  have q: "sdk_query demo_upper (Some echo_sdk) ''And now?'' (Some long_history) =
      Returned (full_message demo_upper ''And now?'' (Some long_history), [], [])"
    using t by blast
  have fm: "full_message demo_upper ''And now?'' (Some long_history) =
       ''Previous conversation:'' @ [newline]
             @ str_join [newline]
                 (map (\<lambda>msg. demo_upper (cm_role msg) @ '': '' @ cm_content msg) (last_six long_history))
             @ [newline, newline]
             @ ''Current message from USER: '' @ ''And now?''
             @ [newline, newline]
             @ ''Please respond to the current message, taking the conversation history into account.''"
    using t ne by simp
  have pre: "conversation_history (preload_history (Some long_history) new_agent) =
       conversation_history new_agent @ map as_message (last_six long_history)"
    using t by blast
  have h: "conversation_history new_agent = []" by (simp add: new_agent_def)
  show ?thesis
    unfolding q fm pre s h
    by (simp add: l demo_upper_def as_message_def)
qed

section \<open>The streaming loop on a well-formed stream\<close>




















lemma streamed_ids_blocks:
  "list_all2 (streamed_as loads) sbs bs \<Longrightarrow> streamed_ids sbs = tool_use_ids bs"
proof (induction sbs bs rule: list_all2_induct)
  case Nil
  then show ?case by simp
next
  case (Cons sb sbs b bs)
  then show ?case by (cases sb; cases b) simp_all
qed


section \<open>The answers to the tool calls of a turn\<close>





section \<open>The text of a turn, streamed and not\<close>



section \<open>The list of tool results in the history\<close>

text \<open>
  At \<^verbatim>\<open>message_stop\<close> the streaming loop appends the list \<^verbatim>\<open>tool_results\<close>
  itself to the history. A tool result added to the list later in the same pass
  is in the turn already appended: here the turn holds one answer when the
  \<^verbatim>\<open>message_stop\<close> has been read and two at the end of the pass.
\<close>

lemma appended_turn_grows_with_the_list:
  "conversation_history (fst (consume demo_loads demo_dumps demo_handlers
      (block_chunks (StreamedToolUse ''toolu_07'' ''search_customer'' []) @ [MessageStop])
      (new_agent\<lparr>conversation_history := [user_turn (Plain ''check Bob'')]\<rparr>))) =
     [user_turn (Plain ''check Bob''),
      user_turn (Blocks [ToolResult ''toolu_07'' [TextItem ''1 customer''] False])]
   \<and> conversation_history (fst (stream_body demo_loads demo_dumps (\<lambda>m. (late_tool_stream, None))
      demo_handlers ''check Bob'' new_agent)) =
     [user_turn (Plain ''check Bob''),
      user_turn (Blocks
        [ToolResult ''toolu_07'' [TextItem ''1 customer''] False,
         ToolResult ''toolu_08'' [TextItem ''Error executing get_policy: connection refused'']
           True]),
      assistant_turn [ToolUse ''toolu_07'' ''search_customer'' (JObj []),
                      ToolUse ''toolu_08'' ''get_policy'' (JObj [])]]"
  by code_simp

section \<open>Failing handlers\<close>






end
